theory Spec2Isabelle
  imports Complex_Main
begin

section \<open>Strings\<close>

text \<open>
  The record fields of \<^verbatim>\<open>App.jsx\<close> are the texts Papa Parse reads from the CSV
  files, or \<^verbatim>\<open>undefined\<close> where a row lacks the column. A text is a \<open>string\<close>, a
  field a \<open>string option\<close> with \<open>None\<close> for \<^verbatim>\<open>undefined\<close>.

  \<^verbatim>\<open>toUpperCase\<close> is only applied to a grade letter that is then looked up among
  A, B, C, D, F, and only an ASCII letter has one of these as its upper case: it is
  modelled on the letters of ASCII, any other character carried through unchanged.

  \<^verbatim>\<open>toLowerCase\<close> and \<^verbatim>\<open>trim\<close> are applied to names, identifiers, the query and the
  attendance status, texts of any script. They are functions of the JavaScript engine,
  not of \<^verbatim>\<open>App.jsx\<close>, and the functions that call them take them as a parameter, the
  record \<open>builtins\<close>. \<open>ascii\<close> is their instance on ASCII texts, for the examples.
\<close>

definition isLower :: "char \<Rightarrow> bool" where
  "isLower c = (97 \<le> (of_char c :: nat) \<and> (of_char c :: nat) \<le> 122)"

definition isUpper :: "char \<Rightarrow> bool" where
  "isUpper c = (65 \<le> (of_char c :: nat) \<and> (of_char c :: nat) \<le> 90)"

definition upperChar :: "char \<Rightarrow> char" where
  "upperChar c = (if isLower c then char_of ((of_char c :: nat) - 32) else c)"

definition lowerChar :: "char \<Rightarrow> char" where
  "lowerChar c = (if isUpper c then char_of ((of_char c :: nat) + 32) else c)"

definition toUpperCase :: "string \<Rightarrow> string" where
  "toUpperCase s = map upperChar s"

record builtins =
  toLowerCase :: "string \<Rightarrow> string"
  trim :: "string \<Rightarrow> string"

text \<open>
  The ASCII instance: the letters A to Z are lower-cased, and the white space and line
  terminators TAB, LF, VT, FF, CR and the space are trimmed. On an ASCII text it computes
  what the engine computes; on other texts the engine does more (it lower-cases the
  letters of other scripts and trims further spaces, such as U+00A0). The theorems about
  the program are stated for every \<open>builtins\<close>; \<open>ascii\<close> evaluates them on ASCII inputs.
\<close>

definition isSpace :: "char \<Rightarrow> bool" where
  "isSpace c = ((of_char c :: nat) \<in> {9, 10, 11, 12, 13, 32})"

definition ascii :: builtins where
  "ascii = \<lparr>toLowerCase = map lowerChar,
            trim = (\<lambda>s. rev (dropWhile isSpace (rev (dropWhile isSpace s))))\<rparr>"

text \<open>\<^verbatim>\<open>s.includes(q)\<close>: \<open>q\<close> occurs in \<open>s\<close> as a contiguous block.\<close>

fun startsWith :: "string \<Rightarrow> string \<Rightarrow> bool" where
  "startsWith s [] = True"
| "startsWith [] (c # q) = False"
| "startsWith (d # s) (c # q) = (d = c \<and> startsWith s q)"

fun includesStr :: "string \<Rightarrow> string \<Rightarrow> bool" where
  "includesStr [] q = (q = [])"
| "includesStr (d # s) q = (startsWith (d # s) q \<or> includesStr s q)"

text \<open>\<^verbatim>\<open>x || ""\<close> on a field: \<^verbatim>\<open>undefined\<close> and the empty text both give the empty text.\<close>

definition orEmpty :: "string option \<Rightarrow> string" where
  "orEmpty x = (case x of None \<Rightarrow> [] | Some s \<Rightarrow> s)"

section \<open>The record model\<close>

record student =
  student_id :: "string option"
  name :: "string option"
  major :: "string option"
  year :: "string option"

record course =
  course_code :: "string option"
  name :: "string option"
  instructor :: "string option"

record grade_record =
  student_id :: "string option"
  course_code :: "string option"
  grade :: "string option"

record attendance_record =
  student_id :: "string option"
  date :: "string option"
  attendance_status :: "string option"

section \<open>Properties inherited from \<^verbatim>\<open>Object.prototype\<close>\<close>

text \<open>
  \<^verbatim>\<open>gradePoints\<close> and the \<^verbatim>\<open>map\<close> of \<^verbatim>\<open>calculateEnrollmentByMajor\<close> are plain
  objects: \<^verbatim>\<open>key in obj\<close> and \<^verbatim>\<open>obj[key]\<close> also find the members of
  \<^verbatim>\<open>Object.prototype\<close>.
\<close>

definition objectPrototypeKeys :: "string list" where
  "objectPrototypeKeys =
     [''constructor'', ''__defineGetter__'', ''__defineSetter__'', ''hasOwnProperty'',
      ''__lookupGetter__'', ''__lookupSetter__'', ''isPrototypeOf'', ''propertyIsEnumerable'',
      ''toString'', ''valueOf'', ''__proto__'', ''toLocaleString'']"

section \<open>Numbers\<close>

text \<open>
  A Number is an IEEE 754 binary64 value, modelled by the rational it denotes.
  \<open>binary64_div p c\<close> is the quotient \<^verbatim>\<open>p / c\<close> of two integers that are Numbers
  themselves: the rational \<open>p / c\<close> rounded to 53 significant bits, to nearest, ties to
  even. The exponent range is not modelled: the quotients of this program are 0 or lie
  between \<open>1 / 2 ^ 32\<close> and 4, an array having fewer than \<open>2 ^ 32\<close> elements.
\<close>

datatype number = Num rat | NaN

fun bitLength :: "nat \<Rightarrow> nat" where
  "bitLength n = (if n = 0 then 0 else Suc (bitLength (n div 2)))"

declare bitLength.simps [simp del]

definition pow2 :: "int \<Rightarrow> rat" where
  "pow2 k = (if 0 \<le> k then 2 ^ nat k else 1 / 2 ^ nat (- k))"

definition roundTiesEven :: "rat \<Rightarrow> int" where
  "roundTiesEven x =
     (let f = \<lfloor>x\<rfloor>; d = x - of_int f
      in if d < 1 / 2 then f else if 1 / 2 < d then f + 1 else if even f then f else f + 1)"

text \<open>The exponent \<open>e\<close> of a positive quotient: \<open>pow2 e \<le> p / c < pow2 (e + 1)\<close>.\<close>

definition binary64_exponent :: "nat \<Rightarrow> nat \<Rightarrow> int" where
  "binary64_exponent p c =
     (let d = int (bitLength p) - int (bitLength c)
      in if pow2 d \<le> of_nat p / of_nat c then d else d - 1)"

definition binary64_div :: "nat \<Rightarrow> nat \<Rightarrow> rat" where
  "binary64_div p c =
     (if p = 0 then 0
      else let ulp = pow2 (binary64_exponent p c - 52)
           in of_int (roundTiesEven (of_nat p / of_nat c / ulp)) * ulp)"

text \<open>
  \<^verbatim>\<open>x.toFixed(2)\<close> for \<open>0 \<le> x < 10 ^ 21\<close> prints \<open>n / 100\<close> for the integer \<open>n\<close> with
  \<open>n / 100 - x\<close> as close to zero as possible, the larger \<open>n\<close> of two. \<open>toFixed2 x\<close> is
  that \<open>n\<close>. The unary \<^verbatim>\<open>+\<close> reads the printed decimal back: the Number nearest to
  \<open>n / 100\<close>.
\<close>

definition toFixed2 :: "rat \<Rightarrow> nat" where
  "toFixed2 x = nat \<lfloor>x * 100 + 1 / 2\<rfloor>"

definition unaryPlus :: "nat \<Rightarrow> rat" where
  "unaryPlus n = binary64_div n 100"

section \<open>GPA calculator\<close>

text \<open>The own properties of \<^verbatim>\<open>gradePoints\<close>; the points are whole numbers.\<close>

definition gradePoints :: "(string \<times> nat) list" where
  "gradePoints = [(''A'', 4), (''B'', 3), (''C'', 2), (''D'', 1), (''F'', 0)]"

text \<open>\<^verbatim>\<open>letter in gradePoints\<close>: an own property or one of the prototype's.\<close>

definition inGradePoints :: "string \<Rightarrow> bool" where
  "inGradePoints letter =
     (letter \<in> set (map fst gradePoints) \<or> letter \<in> set objectPrototypeKeys)"

text \<open>
  \<^verbatim>\<open>totalPoints += gradePoints[letter]\<close>. \<open>totalPoints\<close> is \<open>Some t\<close> while it is a
  number; adding a member of the prototype (a function or an object) makes it a text
  for good, \<open>None\<close>, which the final division turns into \<^verbatim>\<open>NaN\<close>.
\<close>

definition addPoints :: "nat option \<Rightarrow> string \<Rightarrow> nat option" where
  "addPoints totalPoints letter =
     (case (totalPoints, map_of gradePoints letter) of
        (Some t, Some p) \<Rightarrow> Some (t + p)
      | _ \<Rightarrow> None)"

fun gpaLoop :: "grade_record list \<Rightarrow> nat option \<times> nat \<Rightarrow> nat option \<times> nat" where
  "gpaLoop [] acc = acc"
| "gpaLoop (r # recs) (totalPoints, count) =
     (let letter = toUpperCase (orEmpty (grade r))
      in if inGradePoints letter
         then gpaLoop recs (addPoints totalPoints letter, count + 1)
         else gpaLoop recs (totalPoints, count))"

text \<open>The result is \<open>None\<close> for \<^verbatim>\<open>null\<close>.\<close>

definition calcGPAForStudent :: "string option \<Rightarrow> grade_record list \<Rightarrow> number option" where
  "calcGPAForStudent studentId grades =
     (let recs = filter (\<lambda>g. grade_record.student_id g = studentId) grades
      in if length recs = 0 then None
         else case gpaLoop recs (Some 0, 0) of
                (totalPoints, count) \<Rightarrow>
                  if count = 0 then None
                  else Some (case totalPoints of
                               None \<Rightarrow> NaN
                             | Some t \<Rightarrow> Num (unaryPlus (toFixed2 (binary64_div t count)))))"

section \<open>Enrollment aggregator\<close>

text \<open>
  The values \<^verbatim>\<open>map[m]\<close> can take: \<^verbatim>\<open>undefined\<close>, a count, a text, or a member of
  \<^verbatim>\<open>Object.prototype\<close> (a function or the prototype itself), kept as the text it
  converts to.
\<close>

datatype jsval = Undefined | JNum nat | JStr string | JObject string

text \<open>The own properties of a plain object, in the order of their creation.\<close>

type_synonym jsobject = "(string \<times> jsval) list"

definition inheritedText :: "string \<Rightarrow> string" where
  "inheritedText key =
     (if key = ''__proto__'' then ''[object Object]''
      else ''function '' @ (if key = ''constructor'' then ''Object'' else key)
             @ ''() { [native code] }'')"

text \<open>
  \<^verbatim>\<open>map[m]\<close>: the accessor \<^verbatim>\<open>__proto__\<close> answers with the prototype, an own
  property shadows an inherited one.
\<close>

definition getProp :: "jsobject \<Rightarrow> string \<Rightarrow> jsval" where
  "getProp obj key =
     (if key = ''__proto__'' then JObject (inheritedText key)
      else case map_of obj key of
             Some v \<Rightarrow> v
           | None \<Rightarrow> if key \<in> set objectPrototypeKeys then JObject (inheritedText key)
                     else Undefined)"

text \<open>
  \<^verbatim>\<open>(v || 0) + 1\<close>: \<^verbatim>\<open>undefined\<close>, 0 and the empty text are falsy; a text, a
  function or an object is concatenated with \<^verbatim>\<open>"1"\<close>.
\<close>

fun orZeroPlusOne :: "jsval \<Rightarrow> jsval" where
  "orZeroPlusOne Undefined = JNum 1"
| "orZeroPlusOne (JNum n) = JNum (n + 1)"
| "orZeroPlusOne (JStr s) = (if s = [] then JNum 1 else JStr (s @ ''1''))"
| "orZeroPlusOne (JObject t) = JStr (t @ ''1'')"

fun assignOwn :: "jsobject \<Rightarrow> string \<Rightarrow> jsval \<Rightarrow> jsobject" where
  "assignOwn [] key v = [(key, v)]"
| "assignOwn ((k, w) # obj) key v =
     (if k = key then (k, v) # obj else (k, w) # assignOwn obj key v)"

text \<open>
  \<^verbatim>\<open>map[m] = v\<close> for a number or a text \<open>v\<close>: the setter of \<^verbatim>\<open>__proto__\<close>
  ignores a value that is no object; any other key becomes or stays an own property.
\<close>

definition setProp :: "jsobject \<Rightarrow> string \<Rightarrow> jsval \<Rightarrow> jsobject" where
  "setProp obj key v = (if key = ''__proto__'' then obj else assignOwn obj key v)"

text \<open>
  An array index is the canonical decimal text of an integer from 0 to \<open>2 ^ 32 - 2\<close>.
\<close>

definition isDigit :: "char \<Rightarrow> bool" where
  "isDigit c = (48 \<le> (of_char c :: nat) \<and> (of_char c :: nat) \<le> 57)"

definition decimalValue :: "string \<Rightarrow> nat" where
  "decimalValue s = foldl (\<lambda>n c. 10 * n + ((of_char c :: nat) - 48)) 0 s"

definition isArrayIndex :: "string \<Rightarrow> bool" where
  "isArrayIndex s =
     (case s of
        [] \<Rightarrow> False
      | c # cs \<Rightarrow> list_all isDigit s \<and> (c = CHR ''0'' \<longrightarrow> cs = [])
                  \<and> decimalValue s < 4294967295)"

text \<open>
  \<^verbatim>\<open>Object.entries(map)\<close>: the own properties whose key is an array index, in
  ascending numeric order, then the others in the order of their creation.
\<close>

definition entries :: "jsobject \<Rightarrow> (string \<times> jsval) list" where
  "entries obj =
     sort_key (\<lambda>(k, v). decimalValue k) (filter (\<lambda>(k, v). isArrayIndex k) obj)
     @ filter (\<lambda>(k, v). \<not> isArrayIndex k) obj"

text \<open>\<^verbatim>\<open>s.major || "Undeclared"\<close>\<close>

definition majorOf :: "student \<Rightarrow> string" where
  "majorOf s =
     (case student.major s of
        None \<Rightarrow> ''Undeclared''
      | Some m \<Rightarrow> if m = [] then ''Undeclared'' else m)"

fun enrollmentLoop :: "student list \<Rightarrow> jsobject \<Rightarrow> jsobject" where
  "enrollmentLoop [] obj = obj"
| "enrollmentLoop (s # students) obj =
     (let m = majorOf s
      in enrollmentLoop students (setProp obj m (orZeroPlusOne (getProp obj m))))"

record major_count =
  major :: string
  count :: jsval

definition calculateEnrollmentByMajor :: "student list \<Rightarrow> major_count list" where
  "calculateEnrollmentByMajor students =
     map (\<lambda>(m, c). \<lparr>major_count.major = m, count = c\<rparr>) (entries (enrollmentLoop students []))"

section \<open>Search filter\<close>

datatype error = TypeError

text \<open>
  The callback of \<^verbatim>\<open>students.filter\<close>: \<^verbatim>\<open>s.student_id.toLowerCase()\<close> throws a
  TypeError on a missing \<^verbatim>\<open>student_id\<close>; a missing \<^verbatim>\<open>name\<close> reads as the empty text.
\<close>

definition matchesQuery :: "builtins \<Rightarrow> string \<Rightarrow> student \<Rightarrow> error + bool" where
  "matchesQuery js q s =
     (case student.student_id s of
        None \<Rightarrow> Inl TypeError
      | Some sid \<Rightarrow>
          Inr (includesStr (toLowerCase js sid) q
               \<or> includesStr (toLowerCase js (orEmpty (student.name s))) q))"

fun filterStudents :: "builtins \<Rightarrow> string \<Rightarrow> student list \<Rightarrow> error + student list" where
  "filterStudents js q [] = Inr []"
| "filterStudents js q (s # students) =
     (case matchesQuery js q s of
        Inl e \<Rightarrow> Inl e
      | Inr keep \<Rightarrow>
          (case filterStudents js q students of
             Inl e \<Rightarrow> Inl e
           | Inr rest \<Rightarrow> Inr (if keep then s # rest else rest)))"

definition filteredStudents :: "builtins \<Rightarrow> student list \<Rightarrow> string \<Rightarrow> error + student list" where
  "filteredStudents js students search =
     (let q = toLowerCase js (trim js search)
      in if q = [] then Inr students else filterStudents js q students)"

section \<open>The window global\<close>

text \<open>
  \<^verbatim>\<open>exposeGradesGlobally\<close> defines the accessor \<^verbatim>\<open>window.__GRADES_FOR_APP\<close> over
  the plain property \<^verbatim>\<open>window.__internal_grades_for_app\<close>, \<open>None\<close> while it is
  \<^verbatim>\<open>undefined\<close>. The accessor is modelled by its getter and its setter; the window
  the module leaves behind has the property unset.
\<close>

record window =
  internal_grades_for_app :: "grade_record list option"

definition get_GRADES_FOR_APP :: "window \<Rightarrow> grade_record list" where
  "get_GRADES_FOR_APP w =
     (case internal_grades_for_app w of None \<Rightarrow> [] | Some v \<Rightarrow> v)"

definition set_GRADES_FOR_APP :: "grade_record list \<Rightarrow> window \<Rightarrow> window" where
  "set_GRADES_FOR_APP v w = w\<lparr>internal_grades_for_app := Some v\<rparr>"

definition exposeGradesGlobally :: window where
  "exposeGradesGlobally = \<lparr>internal_grades_for_app = None\<rparr>"

section \<open>Course attendance aggregator\<close>

text \<open>The loop over \<^verbatim>\<open>globalGrades\<close> that fills the Set \<^verbatim>\<open>enrolledStudentIds\<close>.\<close>

fun enrollLoop :: "string \<Rightarrow> grade_record list \<Rightarrow> string option set \<Rightarrow> string option set" where
  "enrollLoop courseCode [] ids = ids"
| "enrollLoop courseCode (g # globalGrades) ids =
     (if grade_record.course_code g = Some courseCode
      then enrollLoop courseCode globalGrades (insert (grade_record.student_id g) ids)
      else enrollLoop courseCode globalGrades ids)"

record stats =
  Present :: nat
  Absent :: nat
  Other :: nat

text \<open>The loop over \<^verbatim>\<open>attendance\<close> that counts the statuses.\<close>

fun tally ::
  "builtins \<Rightarrow> string option set \<Rightarrow> attendance_record list \<Rightarrow> stats \<Rightarrow> stats" where
  "tally js ids [] stats = stats"
| "tally js ids (a # attendance) stats =
     (if attendance_record.student_id a \<notin> ids then tally js ids attendance stats
      else let st = trim js (orEmpty (attendance_status a))
           in if toLowerCase js st = ''present''
              then tally js ids attendance (stats\<lparr>Present := Present stats + 1\<rparr>)
              else if toLowerCase js st = ''absent''
              then tally js ids attendance (stats\<lparr>Absent := Absent stats + 1\<rparr>)
              else tally js ids attendance (stats\<lparr>Other := Other stats + 1\<rparr>))"

text \<open>
  What \<^verbatim>\<open>CourseAttendance\<close> computes and renders: the size of \<open>enrolled\<close>, the three
  counts, their \<open>total\<close> and the first ten enrolled students.
\<close>

record course_attendance =
  enrolledStudentIds :: "string option set"
  enrolled :: "student list"
  stats :: stats
  total :: nat
  sample :: "student list"

definition CourseAttendance ::
  "builtins \<Rightarrow> window \<Rightarrow> string \<Rightarrow> attendance_record list \<Rightarrow> student list
     \<Rightarrow> course_attendance" where
  "CourseAttendance js w courseCode attendance students =
     (let globalGrades = get_GRADES_FOR_APP w;
          ids = enrollLoop courseCode globalGrades {};
          enrolled = filter (\<lambda>s. student.student_id s \<in> ids) students;
          stats = tally js ids attendance \<lparr>Present = 0, Absent = 0, Other = 0\<rparr>
      in \<lparr>enrolledStudentIds = ids,
          enrolled = enrolled,
          stats = stats,
          total = Present stats + Absent stats + Other stats,
          sample = take 10 enrolled\<rparr>)"

section \<open>The App component\<close>

text \<open>
  The state of \<^verbatim>\<open>App\<close> (its eight \<^verbatim>\<open>useState\<close> cells) beside the window, and the
  events that change it: the outcome of \<^verbatim>\<open>loadAll\<close>, the search box with its Clear
  button, a click on a table row, the course selector. No handler writes the window.

  Line 1 of \<^verbatim>\<open>App.jsx\<close> repeats the default import of \<^verbatim>\<open>React\<close> that line 22 makes,
  and a module with the binding declared twice is refused before any of it runs. The
  model is of the module with the import made once, the one reading under which
  \<^verbatim>\<open>App\<close> is ever rendered.
\<close>

record app =
  students :: "student list"
  courses :: "course list"
  grades :: "grade_record list"
  attendance :: "attendance_record list"
  selectedStudent :: "student option"
  selectedCourse :: "string option"
  search :: string
  loading :: bool

definition App :: app where
  "App = \<lparr>students = [], courses = [], grades = [], attendance = [],
           selectedStudent = None, selectedCourse = None, search = [], loading = True\<rparr>"

datatype event =
    Loaded "student list" "course list" "grade_record list" "attendance_record list"
  | LoadFailed
  | SetSearch string
  | SetSelectedStudent student
  | SetSelectedCourse string

fun handle :: "event \<Rightarrow> app \<times> window \<Rightarrow> app \<times> window" where
  "handle (Loaded s c g a) (st, w) =
     (st\<lparr>students := s, courses := c, grades := g, attendance := a, loading := False\<rparr>, w)"
| "handle LoadFailed (st, w) = (st\<lparr>loading := False\<rparr>, w)"
| "handle (SetSearch v) (st, w) = (st\<lparr>search := v\<rparr>, w)"
| "handle (SetSelectedStudent s) (st, w) = (st\<lparr>selectedStudent := Some s\<rparr>, w)"
| "handle (SetSelectedCourse v) (st, w) = (st\<lparr>selectedCourse := Some v\<rparr>, w)"

definition run :: "event list \<Rightarrow> app \<times> window" where
  "run evs = foldl (\<lambda>sw ev. handle ev sw) (App, exposeGradesGlobally) evs"

text \<open>
  The course attendance panel: nothing while loading or while \<^verbatim>\<open>selectedCourse\<close> is
  falsy, else \<^verbatim>\<open>CourseAttendance\<close> on the props \<open>courseCode\<close>, \<open>attendance\<close> and
  \<open>students\<close>.
\<close>

definition courseAttendancePanel ::
  "builtins \<Rightarrow> app \<times> window \<Rightarrow> course_attendance option" where
  "courseAttendancePanel js sw =
     (case sw of (st, w) \<Rightarrow>
        if loading st then None
        else case selectedCourse st of
               None \<Rightarrow> None
             | Some c \<Rightarrow> if c = [] then None
                         else Some (CourseAttendance js w c (attendance st) (students st)))"

section \<open>Notions of the specification\<close>

text \<open>
  What the specification says in its own words, to compare the code with: a grade record
  is recognised when its letter, upper-cased, is one of A, B, C, D, F; its points come
  from the table A 4, B 3, C 2, D 1, F 0; the records of a student that count are the
  recognised ones; the mean is the exact quotient of their points by their number.
\<close>

definition spec_recognised :: "grade_record \<Rightarrow> bool" where
  "spec_recognised g = (toUpperCase (orEmpty (grade g)) \<in> {''A'', ''B'', ''C'', ''D'', ''F''})"

definition spec_points :: "grade_record \<Rightarrow> nat" where
  "spec_points g = (let l = toUpperCase (orEmpty (grade g)) in
     if l = ''A'' then 4 else if l = ''B'' then 3 else if l = ''C'' then 2 else if l = ''D'' then 1 else 0)"

definition spec_counted :: "string option \<Rightarrow> grade_record list \<Rightarrow> grade_record list" where
  "spec_counted studentId gs = filter (\<lambda>g. grade_record.student_id g = studentId \<and> spec_recognised g) gs"

definition spec_mean :: "string option \<Rightarrow> grade_record list \<Rightarrow> rat" where
  "spec_mean studentId gs =
     of_nat (sum_list (map spec_points (spec_counted studentId gs)))
       / of_nat (length (spec_counted studentId gs))"

text \<open>The quotient as the code computes it, in binary64.\<close>

definition spec_quotient :: "string option \<Rightarrow> grade_record list \<Rightarrow> rat" where
  "spec_quotient studentId gs =
     binary64_div (sum_list (map spec_points (spec_counted studentId gs)))
       (length (spec_counted studentId gs))"

text \<open>Rounding to the nearest integer, a half away from zero.\<close>

definition spec_roundHalfAway :: "rat \<Rightarrow> int" where
  "spec_roundHalfAway x = (if 0 \<le> x then \<lfloor>x + 1 / 2\<rfloor> else - \<lfloor>- x + 1 / 2\<rfloor>)"

text \<open>
  The students enrolled in a course: the \<open>student_id\<close> of every grade record with that
  \<open>course_code\<close>. The status of an attendance record, trimmed and case-folded.
\<close>

definition spec_enrolled :: "string \<Rightarrow> grade_record list \<Rightarrow> string option set" where
  "spec_enrolled courseCode gradeRecords =
     set (map grade_record.student_id
            (filter (\<lambda>g. grade_record.course_code g = Some courseCode) gradeRecords))"

definition spec_status :: "builtins \<Rightarrow> attendance_record \<Rightarrow> string" where
  "spec_status js a = toLowerCase js (trim js (orEmpty (attendance_status a)))"


text \<open>
  The distinct elements of a list in the order of their first occurrence, and the number
  of students of a major.
\<close>

definition spec_first_seen :: "'a list \<Rightarrow> 'a list" where
  "spec_first_seen xs = rev (remdups (rev xs))"

definition spec_group_size :: "student list \<Rightarrow> string \<Rightarrow> nat" where
  "spec_group_size studs m = length (filter (\<lambda>s. majorOf s = m) studs)"

section \<open>Facts about the strings\<close>

lemma of_char_upperChar: "isLower c \<Longrightarrow> (of_char (upperChar c) :: nat) = of_char c - 32"
proof -
  assume l: "isLower c"
  then have "(of_char c :: nat) - 32 < 256" unfolding isLower_def by arith
  then have "((of_char c :: nat) - 32) mod 256 = of_char c - 32" by (rule mod_less)
  with l show ?thesis by (simp add: upperChar_def)
qed

lemma upperChar_not_lower: "\<not> isLower (upperChar c)"
proof (cases "isLower c")
  case True
  then show ?thesis using of_char_upperChar [OF True] unfolding isLower_def by arith
next
  case False
  then show ?thesis by (simp add: upperChar_def)
qed

lemma toUpperCase_no_lower: "c \<in> set (toUpperCase s) \<Longrightarrow> \<not> isLower c"
  by (auto simp: toUpperCase_def upperChar_not_lower)

lemma prototype_key_has_lower: "k \<in> set objectPrototypeKeys \<Longrightarrow> \<exists>c\<in>set k. isLower c"
  unfolding objectPrototypeKeys_def isLower_def by auto

lemma toUpperCase_not_inherited: "toUpperCase s \<notin> set objectPrototypeKeys"
  using prototype_key_has_lower toUpperCase_no_lower by blast

lemma inGradePoints_toUpperCase:
  "inGradePoints (toUpperCase s) \<longleftrightarrow> toUpperCase s \<in> {''A'', ''B'', ''C'', ''D'', ''F''}"
  by (auto simp: inGradePoints_def toUpperCase_not_inherited gradePoints_def)

section \<open>Facts about the Numbers\<close>

lemma bitLength_bounds: "0 < n \<Longrightarrow> 2 ^ (bitLength n - 1) \<le> n \<and> n < 2 ^ bitLength n"
proof (induction n rule: bitLength.induct)
  case (1 n)
  show ?case
  proof (cases "n div 2 = 0")
    case True
    with "1.prems" have "n = 1" by presburger
    then show ?thesis by (simp add: bitLength.simps)
  next
    case False
    then have pos: "0 < n div 2" by simp
    from "1.prems" have n0: "n \<noteq> 0" by simp
    from "1.IH" [OF n0 pos]
    have lo: "2 ^ (bitLength (n div 2) - 1) \<le> n div 2"
      and hi: "n div 2 < 2 ^ bitLength (n div 2)" by simp_all
    have bl: "bitLength n = Suc (bitLength (n div 2))"
      using n0 by (subst bitLength.simps) simp
    have bpos: "0 < bitLength (n div 2)"
      using False by (subst bitLength.simps) simp
    have "2 ^ (bitLength n - 1) = 2 * 2 ^ (bitLength (n div 2) - 1)"
      using bpos bl by (cases "bitLength (n div 2)") simp_all
    also have "\<dots> \<le> 2 * (n div 2)" using lo by simp
    also have "\<dots> \<le> n" by presburger
    finally have A: "2 ^ (bitLength n - 1) \<le> n" .
    have "n < 2 * (n div 2 + 1)" by presburger
    also have "\<dots> \<le> 2 * 2 ^ bitLength (n div 2)" using hi by simp
    finally have B: "n < 2 ^ bitLength n" using bl by simp
    from A B show ?thesis ..
  qed
qed

lemma pow2_powi: "pow2 k = 2 powi k"
  by (simp add: pow2_def power_int_def inverse_eq_divide power_one_over)

lemma pow2_pos: "0 < pow2 k"
  by (simp add: pow2_powi)

lemma pow2_add: "pow2 (a + b) = pow2 a * pow2 b"
  by (simp add: pow2_powi power_int_add)

lemma pow2_mono: "a \<le> b \<Longrightarrow> pow2 a \<le> pow2 b"
  by (simp add: pow2_powi power_int_increasing)

lemma pow2_nat: "pow2 (int n) = 2 ^ n"
  by (simp add: pow2_def)

lemma pow2_diff: "pow2 (a - b) = pow2 a / pow2 b"
  by (simp add: pow2_powi power_int_diff)

lemma exponent_le:
  assumes "0 < p" "0 < c"
  shows "pow2 (binary64_exponent p c) \<le> of_nat p / of_nat c"
proof -
  define d where "d = int (bitLength p) - int (bitLength c)"
  have bp: "0 < bitLength p" using assms(1) by (subst bitLength.simps) simp
  have "(2::nat) ^ (bitLength p - 1) \<le> p" using bitLength_bounds [OF assms(1)] by simp
  then have "(of_nat ((2::nat) ^ (bitLength p - 1)) :: rat) \<le> of_nat p" by (rule of_nat_mono)
  then have lo: "(2::rat) ^ (bitLength p - 1) \<le> of_nat p" by simp
  have "c < 2 ^ bitLength c" using bitLength_bounds [OF assms(2)] by simp
  then have hi: "(of_nat c :: rat) < 2 ^ bitLength c"
    by (simp add: of_nat_less_numeral_power_cancel_iff)
  have cpos: "(0::rat) < of_nat c" using assms(2) by simp
  have "d - 1 = int (bitLength p - 1) - int (bitLength c)"
    using bp unfolding d_def by arith
  then have "pow2 (d - 1) = pow2 (int (bitLength p - 1) - int (bitLength c))"
    by (rule arg_cong)
  also have "\<dots> = 2 ^ (bitLength p - 1) / 2 ^ bitLength c"
    by (simp only: pow2_diff pow2_nat)
  also have "\<dots> \<le> of_nat p / 2 ^ bitLength c"
    using lo by (simp add: divide_right_mono)
  also have "\<dots> \<le> of_nat p / of_nat c"
    using hi cpos by (intro divide_left_mono) (simp_all add: less_imp_le)
  finally have low: "pow2 (d - 1) \<le> of_nat p / of_nat c" .
  show ?thesis
    unfolding binary64_exponent_def Let_def d_def [symmetric]
    using low by simp
qed

lemma exponent_gt:
  assumes "0 < p" "0 < c"
  shows "of_nat p / of_nat c < pow2 (binary64_exponent p c + 1)"
proof -
  define d where "d = int (bitLength p) - int (bitLength c)"
  have bc: "0 < bitLength c" using assms(2) by (subst bitLength.simps) simp
  have "p < 2 ^ bitLength p" using bitLength_bounds [OF assms(1)] by simp
  then have hi: "(of_nat p :: rat) < 2 ^ bitLength p"
    by (simp add: of_nat_less_numeral_power_cancel_iff)
  have "(2::nat) ^ (bitLength c - 1) \<le> c" using bitLength_bounds [OF assms(2)] by simp
  then have "(of_nat ((2::nat) ^ (bitLength c - 1)) :: rat) \<le> of_nat c" by (rule of_nat_mono)
  then have lo: "(2::rat) ^ (bitLength c - 1) \<le> of_nat c" by simp
  have cpos: "(0::rat) < of_nat c" using assms(2) by simp
  have "(of_nat p :: rat) / of_nat c < 2 ^ bitLength p / of_nat c"
    using hi cpos by (simp add: divide_strict_right_mono)
  also have "\<dots> \<le> 2 ^ bitLength p / 2 ^ (bitLength c - 1)"
    using lo cpos by (intro divide_left_mono) simp_all
  also have "\<dots> = pow2 (int (bitLength p) - int (bitLength c - 1))"
    by (simp only: pow2_diff pow2_nat)
  finally have "of_nat p / of_nat c < pow2 (int (bitLength p) - int (bitLength c - 1))" .
  moreover have "int (bitLength p) - int (bitLength c - 1) = d + 1"
    using bc unfolding d_def by arith
  ultimately have up: "of_nat p / of_nat c < pow2 (d + 1)" by simp
  show ?thesis
    unfolding binary64_exponent_def Let_def d_def [symmetric]
    using up by simp
qed

lemma roundTiesEven_error: "\<bar>of_int (roundTiesEven x) - x\<bar> \<le> 1 / 2"
proof -
  have "of_int \<lfloor>x\<rfloor> \<le> x" "x < of_int \<lfloor>x\<rfloor> + 1" by linarith+
  then show ?thesis unfolding roundTiesEven_def Let_def by (auto simp: abs_le_iff)
qed

lemma roundTiesEven_le:
  assumes "x \<le> of_int k"
  shows "roundTiesEven x \<le> k"
proof (cases "x = of_int k")
  case True
  then show ?thesis by (simp add: roundTiesEven_def)
next
  case False
  with assms have "x < of_int k" by simp
  then have "\<lfloor>x\<rfloor> < k" by (simp add: floor_less_iff)
  then have "\<lfloor>x\<rfloor> + 1 \<le> k" by simp
  then show ?thesis unfolding roundTiesEven_def Let_def by auto
qed

lemma roundTiesEven_nonneg: "0 \<le> x \<Longrightarrow> 0 \<le> roundTiesEven x"
  unfolding roundTiesEven_def Let_def by auto

lemma binary64_div_error:
  assumes "0 < c"
  shows "\<bar>binary64_div p c - of_nat p / of_nat c\<bar> \<le> of_nat p / of_nat c / 2 ^ 53"
proof (cases "p = 0")
  case True
  then show ?thesis by (simp add: binary64_div_def)
next
  case False
  then have p: "0 < p" by simp
  define q :: rat where "q = of_nat p / of_nat c"
  define e where "e = binary64_exponent p c"
  define ulp where "ulp = pow2 (e - 52)"
  have u: "0 < ulp" by (simp add: ulp_def pow2_pos)
  have e: "pow2 e \<le> q" unfolding e_def q_def by (rule exponent_le [OF p assms])
  have r: "binary64_div p c = of_int (roundTiesEven (q / ulp)) * ulp"
    using False by (simp add: binary64_div_def Let_def q_def ulp_def e_def)
  have ulp: "ulp = pow2 e / 2 ^ 52"
    using pow2_diff [of e 52] pow2_nat [of 52] by (simp add: ulp_def)
  have "1 / 2 * ulp = pow2 e / 2 ^ 53" by (simp add: ulp)
  also have "\<dots> \<le> q / 2 ^ 53" using e by (simp add: divide_right_mono)
  finally have half: "1 / 2 * ulp \<le> q / 2 ^ 53" .
  have "of_int (roundTiesEven (q / ulp)) * ulp - q
        = (of_int (roundTiesEven (q / ulp)) - q / ulp) * ulp"
    using u by (simp add: left_diff_distrib)
  then have "\<bar>of_int (roundTiesEven (q / ulp)) * ulp - q\<bar>
        = \<bar>of_int (roundTiesEven (q / ulp)) - q / ulp\<bar> * ulp"
    using u by (simp only: abs_mult abs_of_pos)
  also have "\<dots> \<le> 1 / 2 * ulp"
    using roundTiesEven_error [of "q / ulp"] u by (intro mult_right_mono) simp_all
  also note half
  finally show ?thesis unfolding r q_def .
qed

lemma binary64_div_bounds:
  assumes "0 < c" "p \<le> 4 * c"
  shows "0 \<le> binary64_div p c \<and> binary64_div p c \<le> 4"
proof (cases "p = 0")
  case True
  then show ?thesis by (simp add: binary64_div_def)
next
  case False
  then have p: "0 < p" by simp
  define q :: rat where "q = of_nat p / of_nat c"
  define e where "e = binary64_exponent p c"
  define ulp where "ulp = pow2 (e - 52)"
  have u: "0 < ulp" by (simp add: ulp_def pow2_pos)
  have e: "pow2 e \<le> q" unfolding e_def q_def by (rule exponent_le [OF p assms(1)])
  have r: "binary64_div p c = of_int (roundTiesEven (q / ulp)) * ulp"
    using False by (simp add: binary64_div_def Let_def q_def ulp_def e_def)
  have "(of_nat p :: rat) \<le> of_nat (4 * c)" using assms(2) by (rule of_nat_mono)
  then have q4: "q \<le> 4" using assms(1) by (simp add: q_def divide_le_eq)
  have q0: "0 \<le> q" by (simp add: q_def)
  have "e \<le> 2"
  proof (rule ccontr)
    assume "\<not> e \<le> 2"
    then have "3 \<le> e" by simp
    then have "pow2 3 \<le> pow2 e" by (rule pow2_mono)
    then have "8 \<le> q" using e by (simp add: pow2_def)
    with q4 show False by simp
  qed
  then have n: "0 \<le> 54 - e" by simp
  have "pow2 (54 - e) * ulp = pow2 2"
    unfolding ulp_def pow2_add [symmetric] by simp
  then have four: "pow2 (54 - e) * ulp = 4" by (simp add: pow2_def)
  have "pow2 (54 - e) = of_int (2 ^ nat (54 - e))" using n by (simp add: pow2_def)
  moreover have "q / ulp \<le> pow2 (54 - e)"
    using q4 u four by (simp add: divide_le_eq)
  ultimately have "roundTiesEven (q / ulp) \<le> 2 ^ nat (54 - e)"
    by (intro roundTiesEven_le) simp
  then have "(of_int (roundTiesEven (q / ulp)) :: rat) \<le> of_int (2 ^ nat (54 - e))"
    by (simp only: of_int_le_iff)
  then have "of_int (roundTiesEven (q / ulp)) * ulp \<le> of_int (2 ^ nat (54 - e)) * ulp"
    using u by (intro mult_right_mono) simp_all
  also have "\<dots> = 4" using four \<open>pow2 (54 - e) = of_int (2 ^ nat (54 - e))\<close> by simp
  finally have up: "binary64_div p c \<le> 4" unfolding r .
  have "0 \<le> q / ulp" using q0 u by simp
  then have "0 \<le> roundTiesEven (q / ulp)" by (rule roundTiesEven_nonneg)
  then have "0 \<le> binary64_div p c" unfolding r using u by simp
  with up show ?thesis by simp
qed

text \<open>A quotient with at most 53 significant bits is computed exactly.\<close>

lemma roundTiesEven_of_int: "roundTiesEven (of_int z) = z"
  by (simp add: roundTiesEven_def)

lemma binary64_div_exact:
  assumes n: "0 < n" and q: "of_nat t / of_nat n = (of_nat m :: rat) / 2 ^ j" and m: "m < 2 ^ 53"
  shows "binary64_div t n = of_nat t / of_nat n"
proof (cases "t = 0")
  case True
  then show ?thesis by (simp add: binary64_div_def)
next
  case False
  then have t: "0 < t" by simp
  define e where "e = binary64_exponent t n"
  define ulp where "ulp = pow2 (e - 52)"
  have u: "0 < ulp" by (simp add: ulp_def pow2_pos)
  have "pow2 e \<le> of_nat m / 2 ^ j"
    using exponent_le [OF t n] by (simp add: e_def q)
  then have "pow2 e * 2 ^ j \<le> of_nat m" by (simp add: pos_le_divide_eq)
  then have "pow2 (e + int j) \<le> of_nat m" by (simp add: pow2_add pow2_nat)
  moreover have "(of_nat m :: rat) < of_nat (2 ^ 53)" using m by (simp only: of_nat_less_iff)
  ultimately have "pow2 (e + int j) < pow2 53" by (simp add: pow2_def)
  then have "e + int j < 53"
    using pow2_mono [of 53 "e + int j"] by (cases "e + int j < 53") simp_all
  then have d: "0 \<le> 52 - e - int j" by simp
  have "pow2 (52 - e - int j) * (pow2 (int j) * ulp) = 1"
    unfolding ulp_def pow2_add [symmetric] by (simp add: pow2_def)
  then have "pow2 (52 - e - int j) * (2 ^ j * ulp) = 1" by (simp add: pow2_nat)
  then have "1 / (2 ^ j * ulp) = pow2 (52 - e - int j)"
    using u by (simp add: field_simps)
  then have "of_nat m * (1 / (2 ^ j * ulp)) = of_nat m * pow2 (52 - e - int j)"
    by (simp only:)
  then have "of_nat m / 2 ^ j / ulp = of_nat m * pow2 (52 - e - int j)"
    by (simp add: divide_simps)
  also have "\<dots> = of_int (int m * 2 ^ nat (52 - e - int j))" using d by (simp add: pow2_def)
  finally have i: "of_nat t / of_nat n / ulp = of_int (int m * 2 ^ nat (52 - e - int j))"
    by (simp add: q)
  have "binary64_div t n = of_int (roundTiesEven (of_nat t / of_nat n / ulp)) * ulp"
    using False by (simp add: binary64_div_def Let_def ulp_def e_def)
  also have "\<dots> = of_nat t / of_nat n / ulp * ulp"
    unfolding i roundTiesEven_of_int ..
  also have "\<dots> = of_nat t / of_nat n" using u by simp
  finally show ?thesis .
qed

section \<open>GPA calculator: the loop and its result\<close>

lemma map_of_gradePoints:
  "map_of gradePoints ''A'' = Some 4" "map_of gradePoints ''B'' = Some 3"
  "map_of gradePoints ''C'' = Some 2" "map_of gradePoints ''D'' = Some 1"
  "map_of gradePoints ''F'' = Some 0"
  by (simp_all add: gradePoints_def)

lemma addPoints_spec_recognised:
  assumes "spec_recognised g"
  shows "addPoints (Some t) (toUpperCase (orEmpty (grade g))) = Some (t + spec_points g)"
proof -
  define l where "l = toUpperCase (orEmpty (grade g))"
  from assms have "l = ''A'' \<or> l = ''B'' \<or> l = ''C'' \<or> l = ''D'' \<or> l = ''F''"
    by (simp add: spec_recognised_def l_def)
  then have "addPoints (Some t) l
             = Some (t + (if l = ''A'' then 4 else if l = ''B'' then 3 else if l = ''C'' then 2
                          else if l = ''D'' then 1 else 0))"
    by (elim disjE) (simp_all add: addPoints_def map_of_gradePoints)
  then show ?thesis by (simp add: l_def spec_points_def Let_def)
qed

lemma gpaLoop_eq:
  "gpaLoop recs (Some t, n) =
     (Some (t + sum_list (map spec_points (filter spec_recognised recs))), n + length (filter spec_recognised recs))"
proof (induction recs arbitrary: t n)
  case Nil
  then show ?case by simp
next
  case (Cons r recs)
  show ?case
  proof (cases "spec_recognised r")
    case True
    then have "inGradePoints (toUpperCase (orEmpty (grade r)))"
      by (simp add: inGradePoints_toUpperCase spec_recognised_def)
    then show ?thesis using True Cons.IH by (simp add: addPoints_spec_recognised)
  next
    case False
    then have "\<not> inGradePoints (toUpperCase (orEmpty (grade r)))"
      by (simp add: inGradePoints_toUpperCase spec_recognised_def)
    then show ?thesis using False Cons.IH by simp
  qed
qed

lemma calcGPAForStudent_eq:
  "calcGPAForStudent studentId gs =
     (if spec_counted studentId gs = [] then None
      else Some (Num (unaryPlus (toFixed2 (binary64_div (sum_list (map spec_points (spec_counted studentId gs)))
                                                       (length (spec_counted studentId gs)))))))"
proof -
  define recs where "recs = filter (\<lambda>g. grade_record.student_id g = studentId) gs"
  have f: "filter spec_recognised recs = spec_counted studentId gs"
    by (simp add: recs_def spec_counted_def conj_commute)
  have c: "calcGPAForStudent studentId gs =
      (if length recs = 0 then None
       else case gpaLoop recs (Some 0, 0) of
              (totalPoints, n) \<Rightarrow>
                if n = 0 then None
                else Some (case totalPoints of
                             None \<Rightarrow> NaN
                           | Some t \<Rightarrow> Num (unaryPlus (toFixed2 (binary64_div t n)))))"
    by (simp only: calcGPAForStudent_def recs_def Let_def)
  show ?thesis
  proof (cases "recs = []")
    case True
    with f have "spec_counted studentId gs = []" by simp
    with True c show ?thesis by simp
  next
    case False
    then show ?thesis unfolding c gpaLoop_eq f by simp
  qed
qed

lemma spec_points_le: "spec_points g \<le> 4"
  by (simp add: spec_points_def Let_def)

lemma sum_points_le: "sum_list (map spec_points rs) \<le> 4 * length rs"
proof (induction rs)
  case Nil
  then show ?case by simp
next
  case (Cons r rs)
  then show ?case using spec_points_le [of r] by simp
qed

lemma toFixed2_le:
  assumes "0 \<le> x" "x \<le> 4"
  shows "toFixed2 x \<le> 400"
proof -
  have "x * 100 + 1 / 2 < 401" using assms by simp
  then have "\<lfloor>x * 100 + 1 / 2\<rfloor> < 401" by (subst floor_less_iff) simp
  then show ?thesis unfolding toFixed2_def by linarith
qed

lemma gpa_value_bounds:
  assumes "0 < n" "t \<le> 4 * n"
  shows "0 \<le> unaryPlus (toFixed2 (binary64_div t n))
       \<and> unaryPlus (toFixed2 (binary64_div t n)) \<le> 4"
proof -
  from binary64_div_bounds [OF assms]
  have "toFixed2 (binary64_div t n) \<le> 4 * 100" using toFixed2_le by simp
  then show ?thesis unfolding unaryPlus_def by (intro binary64_div_bounds) simp_all
qed

lemma toFixed2_near:
  assumes "0 \<le> x"
  shows "\<bar>of_nat (toFixed2 x) - x * 100\<bar> \<le> 1 / 2"
proof -
  define f where "f = \<lfloor>x * 100 + 1 / 2\<rfloor>"
  have "0 \<le> x * 100 + 1 / 2" using assms by simp
  then have f0: "0 \<le> f" unfolding f_def by (simp only: zero_le_floor of_int_0)
  have "of_int f \<le> x * 100 + 1 / 2" "x * 100 + 1 / 2 < of_int f + 1"
    unfolding f_def by linarith+
  then have "\<bar>of_int f - x * 100\<bar> \<le> 1 / 2" by linarith
  moreover have "(of_nat (toFixed2 x) :: rat) = of_int f"
    using f0 by (simp add: toFixed2_def f_def [symmetric])
  ultimately show ?thesis by simp
qed

text \<open>An integer count of hundredths that misses the quotient t / n by more than a half misses it
  by at least a half and 1 / (2 n).\<close>

lemma hundredths_gap:
  fixes t n k :: nat
  assumes "0 < n" and "1 / 2 < \<bar>of_nat k - of_nat t / of_nat n * (100::rat)\<bar>"
  shows "1 / 2 + 1 / (2 * of_nat n) \<le> \<bar>of_nat k - of_nat t / of_nat n * (100::rat)\<bar>"
proof -
  define D :: int where "D = int k * int n - 100 * int t"
  have n0: "(0::rat) < of_nat n" using assms(1) by simp
  have eq: "of_nat k - of_nat t / of_nat n * (100::rat) = of_int D / of_nat n"
    using n0 by (simp add: D_def field_simps)
  have "1 / 2 < \<bar>of_int D :: rat\<bar> / of_nat n"
    using assms(2) n0 unfolding eq by (simp add: abs_divide)
  then have "(of_nat n :: rat) < 2 * \<bar>of_int D\<bar>" using n0 by (simp add: field_simps)
  then have "(of_int (int n) :: rat) < of_int (2 * \<bar>D\<bar>)" by simp
  then have "int n < 2 * \<bar>D\<bar>" by (simp only: of_int_less_iff)
  then have "int n + 1 \<le> 2 * \<bar>D\<bar>" by simp
  then have "(of_int (int n + 1) :: rat) \<le> of_int (2 * \<bar>D\<bar>)" by (simp only: of_int_le_iff)
  then have "(of_nat n :: rat) + 1 \<le> 2 * \<bar>of_int D\<bar>" by simp
  then have "((of_nat n :: rat) + 1) / (2 * of_nat n) \<le> 2 * \<bar>of_int D\<bar> / (2 * of_nat n)"
    using n0 by (intro divide_right_mono) simp_all
  moreover have "((of_nat n :: rat) + 1) / (2 * of_nat n) = 1 / 2 + 1 / (2 * of_nat n)"
    using n0 by (simp add: field_simps)
  moreover have "2 * \<bar>of_int D :: rat\<bar> / (2 * of_nat n) = \<bar>of_int D\<bar> / of_nat n"
    by simp
  ultimately have "1 / 2 + 1 / (2 * of_nat n) \<le> \<bar>of_int D :: rat\<bar> / of_nat n"
    by simp
  then show ?thesis unfolding eq by (simp add: abs_divide)
qed

lemma toFixed2_binary64_div_near:
  fixes t n :: nat
  assumes n: "0 < n" "n < 2 ^ 32" and t: "t \<le> 4 * n"
  shows "\<bar>of_nat (toFixed2 (binary64_div t n)) - of_nat t / of_nat n * (100::rat)\<bar> \<le> 1 / 2"
proof (rule ccontr)
  define q :: rat where "q = of_nat t / of_nat n"
  define x where "x = binary64_div t n"
  define k where "k = toFixed2 x"
  assume "\<not> ?thesis"
  then have far: "1 / 2 < \<bar>of_nat k - q * 100\<bar>" by (simp add: k_def x_def q_def)
  have gap: "1 / 2 + 1 / (2 * of_nat n) \<le> \<bar>of_nat k - q * 100\<bar>"
    using hundredths_gap [OF n(1)] far unfolding q_def by simp
  have x0: "0 \<le> x" using binary64_div_bounds [OF n(1) t] by (simp add: x_def)
  have near: "\<bar>of_nat k - x * 100\<bar> \<le> 1 / 2" unfolding k_def by (rule toFixed2_near [OF x0])
  have "(of_nat t :: rat) \<le> of_nat (4 * n)" using t by (rule of_nat_mono)
  then have q4: "q \<le> 4" using n(1) by (simp add: q_def divide_le_eq)
  have "\<bar>x - q\<bar> \<le> q / 2 ^ 53" unfolding x_def q_def by (rule binary64_div_error [OF n(1)])
  also have "\<dots> \<le> 4 / 2 ^ 53" using q4 by (simp add: divide_right_mono)
  finally have err: "\<bar>x - q\<bar> \<le> 4 / 2 ^ 53" .
  have err100: "\<bar>x * 100 - q * 100\<bar> \<le> 400 / 2 ^ 53" using err by linarith
  have "\<bar>of_nat k - q * 100\<bar> \<le> \<bar>of_nat k - x * 100\<bar> + \<bar>x * 100 - q * 100\<bar>" by linarith
  with near err100 have "\<bar>of_nat k - q * 100\<bar> \<le> 1 / 2 + 400 / 2 ^ 53" by linarith
  with gap have small: "1 / (2 * of_nat n) \<le> (400 / 2 ^ 53 :: rat)" by linarith
  have "(of_nat n :: rat) < of_nat (2 ^ 32)" using n(2) by (simp only: of_nat_less_iff)
  then have n32: "(of_nat n :: rat) < 2 ^ 32" by simp
  have n0: "(0::rat) < of_nat n" using n(1) by simp
  have "(1 / (2 * 2 ^ 32) :: rat) < 1 / (2 * of_nat n)"
    using n32 n0 by (intro divide_strict_left_mono) simp_all
  with small have "(1 / (2 * 2 ^ 32) :: rat) < 400 / 2 ^ 53" by linarith
  then show False by simp
qed

lemma length_spec_counted_le: "length (spec_counted sid gs) \<le> length gs"
  by (simp add: spec_counted_def)

lemma toFixed2_roundHalfAway:
  assumes "0 \<le> x"
  shows "toFixed2 x = nat (spec_roundHalfAway (100 * x))"
proof -
  have "0 \<le> 100 * x" using assms by simp
  then show ?thesis by (simp add: toFixed2_def spec_roundHalfAway_def mult.commute)
qed

lemma roundHalfAway_unique:
  fixes k :: int and y :: rat
  assumes "0 \<le> y" and "\<bar>of_int k - y\<bar> \<le> 1 / 2" and "frac y \<noteq> 1 / 2"
  shows "spec_roundHalfAway y = k"
proof -
  have le: "of_int k \<le> y + 1 / 2" and ge: "y - 1 / 2 \<le> of_int k" using assms(2) by linarith+
  have "of_int k \<noteq> y - 1 / 2"
  proof
    assume "of_int k = y - 1 / 2"
    then have "y = of_int k + 1 / 2" by simp
    then have "frac y = frac (of_int k + (1 / 2 :: rat))" by simp
    also have "\<dots> = 1 / 2"
    proof -
      have "\<lfloor>of_int k + (1 / 2 :: rat)\<rfloor> = k" by (rule floor_unique) simp_all
      then show ?thesis by (simp add: frac_def)
    qed
    finally show False using assms(3) by simp
  qed
  with ge have "y + 1 / 2 < of_int k + 1" by linarith
  with le have "\<lfloor>y + 1 / 2\<rfloor> = k" by (simp add: floor_unique)
  then show ?thesis using assms(1) by (simp add: spec_roundHalfAway_def)
qed

subsection \<open>The claims about the GPA\<close>

text \<open>
  C3. \<open>calcGPAForStudent\<close> returns \<^verbatim>\<open>null\<close> exactly when no record both matches the
  student and carries a letter that, upper-cased, is one of A, B, C, D, F; in particular
  it returns \<^verbatim>\<open>null\<close> for the empty list of records.
\<close>

theorem calcGPA_null_iff:
  "(calcGPAForStudent sid gs = None \<longleftrightarrow>
      \<not> (\<exists>g\<in>set gs. grade_record.student_id g = sid
            \<and> toUpperCase (orEmpty (grade g)) \<in> {''A'', ''B'', ''C'', ''D'', ''F''}))
   \<and> calcGPAForStudent sid [] = None"
proof -
  have "spec_counted sid gs = [] \<longleftrightarrow>
        \<not> (\<exists>g\<in>set gs. grade_record.student_id g = sid
              \<and> toUpperCase (orEmpty (grade g)) \<in> {''A'', ''B'', ''C'', ''D'', ''F''})"
    unfolding spec_counted_def spec_recognised_def filter_empty_conv by blast
  moreover have "calcGPAForStudent sid [] = None"
    by (simp add: calcGPAForStudent_def)
  ultimately show ?thesis by (simp add: calcGPAForStudent_eq)
qed

theorem calcGPA_null_iff_witness:
  "calcGPAForStudent (Some ''S1'')
     [\<lparr>grade_record.student_id = Some ''S1'', course_code = Some ''C1'', grade = Some ''z''\<rparr>,
      \<lparr>grade_record.student_id = Some ''S1'', course_code = Some ''C2'', grade = None\<rparr>,
      \<lparr>grade_record.student_id = Some ''S2'', course_code = Some ''C1'', grade = Some ''A''\<rparr>] = None
   \<and> calcGPAForStudent (Some ''S2'')
     [\<lparr>grade_record.student_id = Some ''S1'', course_code = Some ''C1'', grade = Some ''z''\<rparr>,
      \<lparr>grade_record.student_id = Some ''S1'', course_code = Some ''C2'', grade = None\<rparr>,
      \<lparr>grade_record.student_id = Some ''S2'', course_code = Some ''C1'', grade = Some ''A''\<rparr>] \<noteq> None"
proof -
  define gs where "gs =
     [\<lparr>grade_record.student_id = Some ''S1'', course_code = Some ''C1'', grade = Some ''z''\<rparr>,
      \<lparr>grade_record.student_id = Some ''S1'', course_code = Some ''C2'', grade = None\<rparr>,
      \<lparr>grade_record.student_id = Some ''S2'', course_code = Some ''C1'', grade = Some ''A''\<rparr>]"
  have a: "\<not> (\<exists>g\<in>set gs. grade_record.student_id g = Some ''S1''
            \<and> toUpperCase (orEmpty (grade g)) \<in> {''A'', ''B'', ''C'', ''D'', ''F''})"
    unfolding gs_def by code_simp
  have b: "\<exists>g\<in>set gs. grade_record.student_id g = Some ''S2''
            \<and> toUpperCase (orEmpty (grade g)) \<in> {''A'', ''B'', ''C'', ''D'', ''F''}"
    unfolding gs_def by code_simp
  from a b calcGPA_null_iff [of "Some ''S1''" gs] calcGPA_null_iff [of "Some ''S2''" gs]
  show ?thesis unfolding gs_def by blast
qed

text \<open>
  C4, as the specification states it, fails: the mean of one B and 199 F is 0.015, which
  a half away from zero (and a half to even) rounds to 0.02; the code divides in binary,
  gets a Number just below 0.015, and \<^verbatim>\<open>toFixed(2)\<close> prints 0.01.
\<close>

theorem calcGPA_rounding_counterexample:
  "calcGPAForStudent (Some ''S1'')
     (\<lparr>grade_record.student_id = Some ''S1'', course_code = Some ''C0'', grade = Some ''B''\<rparr>
      # replicate 199 \<lparr>grade_record.student_id = Some ''S1'', course_code = Some ''C1'', grade = Some ''F''\<rparr>)
     = Some (Num (unaryPlus 1))
   \<and> spec_mean (Some ''S1'')
     (\<lparr>grade_record.student_id = Some ''S1'', course_code = Some ''C0'', grade = Some ''B''\<rparr>
      # replicate 199 \<lparr>grade_record.student_id = Some ''S1'', course_code = Some ''C1'', grade = Some ''F''\<rparr>)
     = 3 / 200
   \<and> spec_roundHalfAway (100 * (3 / 200)) = 2
   \<and> roundTiesEven (100 * (3 / 200)) = 2
   \<and> unaryPlus 1 \<noteq> unaryPlus 2
   \<and> unaryPlus 1 \<noteq> 2 / 100"
proof -
  define b where "b = \<lparr>grade_record.student_id = Some ''S1'', course_code = Some ''C0'', grade = Some ''B''\<rparr>"
  define f where "f = \<lparr>grade_record.student_id = Some ''S1'', course_code = Some ''C1'', grade = Some ''F''\<rparr>"
  have pb: "grade_record.student_id b = Some ''S1'' \<and> spec_recognised b" unfolding b_def by code_simp
  have pf: "grade_record.student_id f = Some ''S1'' \<and> spec_recognised f" unfolding f_def by code_simp
  have vb: "spec_points b = 3" unfolding b_def by code_simp
  have vf: "spec_points f = 0" unfolding f_def by code_simp
  have c: "spec_counted (Some ''S1'') (b # replicate 199 f) = b # replicate 199 f"
    using pb pf by (simp add: spec_counted_def)
  have t: "sum_list (map spec_points (b # replicate 199 f)) = 3"
    by (simp add: vb vf sum_list_replicate)
  have n: "length (b # replicate 199 f) = 200" by simp
  have k: "toFixed2 (binary64_div 3 200) = 1" by code_simp
  have 1: "calcGPAForStudent (Some ''S1'') (b # replicate 199 f) = Some (Num (unaryPlus 1))"
    unfolding calcGPAForStudent_eq c t n k by simp
  have 2: "spec_mean (Some ''S1'') (b # replicate 199 f) = 3 / 200"
    unfolding spec_mean_def c t n by simp
  have 3: "spec_roundHalfAway (100 * (3 / 200)) = 2" by (simp add: spec_roundHalfAway_def)
  have 4: "roundTiesEven (100 * (3 / 200)) = 2" by code_simp
  have 5: "unaryPlus 1 \<noteq> unaryPlus 2" by code_simp
  have 6: "unaryPlus 1 \<noteq> 2 / 100" by code_simp
  from 1 2 3 4 5 6 show ?thesis unfolding b_def f_def by blast
qed

text \<open>
  C4, amended. With fewer than \<open>2 ^ 32\<close> records and at least one recognised record of
  the student, letters read case-insensitively, the result is the Number nearest to
  \<open>k / 100\<close>, where \<open>k\<close> is a hundred times the binary64 quotient of the points by their
  number, rounded to an integer with a half away from zero. This \<open>k / 100\<close> lies within
  0.005 of the exact mean. It is the exact mean rounded to two decimals with a half away
  from zero whenever the mean is no exact tie, and whenever the quotient is exact in
  binary, as it is for every mean that is a multiple of 1/8 (one D and seven F give
  0.13); only a tie whose quotient is inexact in binary follows the binary quotient
  instead (one B and 199 F give 0.01). A and B give 3.5.
\<close>

theorem calcGPA_rounded_quotient:
  assumes "spec_counted sid gs \<noteq> []" and "length gs < 2 ^ 32"
  shows "calcGPAForStudent sid gs
           = Some (Num (unaryPlus (nat (spec_roundHalfAway (100 * spec_quotient sid gs)))))
       \<and> 0 \<le> spec_roundHalfAway (100 * spec_quotient sid gs)
       \<and> \<bar>of_int (spec_roundHalfAway (100 * spec_quotient sid gs)) / 100 - spec_mean sid gs\<bar>
             \<le> 1 / 200
       \<and> (frac (100 * spec_mean sid gs) \<noteq> 1 / 2 \<longrightarrow>
            spec_roundHalfAway (100 * spec_quotient sid gs)
              = spec_roundHalfAway (100 * spec_mean sid gs))
       \<and> (spec_quotient sid gs = spec_mean sid gs \<longrightarrow>
            spec_roundHalfAway (100 * spec_quotient sid gs)
              = spec_roundHalfAway (100 * spec_mean sid gs))
       \<and> ((\<exists>m::nat. spec_mean sid gs = of_nat m / 8) \<longrightarrow>
            spec_quotient sid gs = spec_mean sid gs)
       \<and> \<bar>unaryPlus (nat (spec_roundHalfAway (100 * spec_quotient sid gs)))
            - of_int (spec_roundHalfAway (100 * spec_quotient sid gs)) / 100\<bar>
             \<le> of_int (spec_roundHalfAway (100 * spec_quotient sid gs)) / 100 / 2 ^ 53"
proof -
  define rs where "rs = spec_counted sid gs"
  define t where "t = sum_list (map spec_points rs)"
  define n where "n = length rs"
  define x where "x = binary64_div t n"
  define k where "k = spec_roundHalfAway (100 * x)"
  define q :: rat where "q = of_nat t / of_nat n"
  have xq: "spec_quotient sid gs = x" by (simp add: spec_quotient_def x_def t_def n_def rs_def)
  have mq: "spec_mean sid gs = q" by (simp add: spec_mean_def q_def t_def n_def rs_def)
  have n0: "0 < n" using assms(1) by (simp add: n_def rs_def)
  have "n \<le> length gs" unfolding n_def rs_def by (rule length_spec_counted_le)
  with assms(2) have n32: "n < 2 ^ 32" by simp
  have t4: "t \<le> 4 * n" unfolding t_def n_def by (rule sum_points_le)
  have x0: "0 \<le> x" using binary64_div_bounds [OF n0 t4] by (simp add: x_def)
  have tf: "toFixed2 x = nat k" unfolding k_def by (rule toFixed2_roundHalfAway [OF x0])
  have "0 \<le> 100 * x + 1 / 2" using x0 by simp
  then have "0 \<le> \<lfloor>100 * x + 1 / 2\<rfloor>" by (simp only: zero_le_floor of_int_0)
  then have k0: "0 \<le> k" using x0 by (simp add: k_def spec_roundHalfAway_def)
  have 1: "calcGPAForStudent sid gs = Some (Num (unaryPlus (nat k)))"
    using assms(1) by (simp add: calcGPAForStudent_eq tf [symmetric] x_def t_def n_def rs_def)
  have "\<bar>of_nat (toFixed2 x) - q * 100\<bar> \<le> 1 / 2"
    unfolding x_def q_def by (rule toFixed2_binary64_div_near [OF n0 n32 t4])
  moreover have "(of_nat (toFixed2 x) :: rat) = of_int k" using k0 by (simp add: tf)
  ultimately have near: "\<bar>of_int k - q * 100\<bar> \<le> 1 / 2" by simp
  then have 3: "\<bar>of_int k / 100 - q\<bar> \<le> 1 / 200" by linarith
  have q0: "0 \<le> 100 * q" by (simp add: q_def)
  have 4: "k = spec_roundHalfAway (100 * q)" if "frac (100 * q) \<noteq> 1 / 2"
  proof -
    have "\<bar>of_int k - 100 * q\<bar> \<le> 1 / 2" using near by (simp add: mult.commute)
    from roundHalfAway_unique [OF q0 this that] show ?thesis by simp
  qed
  have 5: "k = spec_roundHalfAway (100 * q)" if "x = q"
    using that by (simp add: k_def)
  have q4: "q \<le> 4"
  proof -
    have "(of_nat t :: rat) \<le> of_nat (4 * n)" using t4 by (rule of_nat_mono)
    then show ?thesis using n0 by (simp add: q_def divide_le_eq)
  qed
  have 7: "x = q" if "\<exists>m::nat. q = of_nat m / 8"
  proof -
    from that obtain m :: nat where m: "q = of_nat m / 8" by blast
    with q4 have "(of_nat m :: rat) \<le> of_nat 32" by simp
    then have "m \<le> 32" by (simp only: of_nat_le_iff)
    then have m53: "m < 2 ^ 53" by simp
    have "of_nat t / of_nat n = (of_nat m :: rat) / 2 ^ 3" using m by (simp add: q_def)
    from binary64_div_exact [OF n0 this m53] show ?thesis by (simp add: x_def q_def)
  qed
  have "\<bar>unaryPlus (nat k) - of_nat (nat k) / 100\<bar> \<le> of_nat (nat k) / 100 / 2 ^ 53"
    using binary64_div_error [of 100 "nat k"] by (simp add: unaryPlus_def)
  moreover have "(of_nat (nat k) :: rat) = of_int k" using k0 by simp
  ultimately have 6: "\<bar>unaryPlus (nat k) - of_int k / 100\<bar> \<le> of_int k / 100 / 2 ^ 53" by simp
  show ?thesis
    unfolding xq mq k_def [symmetric]
    using 1 k0 3 4 5 6 7 by blast
qed

theorem calcGPA_rounded_quotient_witness:
  "calcGPAForStudent (Some ''S1'')
     [\<lparr>grade_record.student_id = Some ''S1'', course_code = Some ''C1'', grade = Some ''A''\<rparr>,
      \<lparr>grade_record.student_id = Some ''S1'', course_code = Some ''C2'', grade = Some ''b''\<rparr>]
   = Some (Num (7 / 2))
   \<and> calcGPAForStudent (Some ''S1'')
     (\<lparr>grade_record.student_id = Some ''S1'', course_code = Some ''C0'', grade = Some ''D''\<rparr>
      # replicate 7 \<lparr>grade_record.student_id = Some ''S1'', course_code = Some ''C1'', grade = Some ''F''\<rparr>)
   = Some (Num (unaryPlus 13))
   \<and> spec_mean (Some ''S1'')
     (\<lparr>grade_record.student_id = Some ''S1'', course_code = Some ''C0'', grade = Some ''D''\<rparr>
      # replicate 7 \<lparr>grade_record.student_id = Some ''S1'', course_code = Some ''C1'', grade = Some ''F''\<rparr>)
   = 1 / 8"
proof -
  define gs where "gs =
     [\<lparr>grade_record.student_id = Some ''S1'', course_code = Some ''C1'', grade = Some ''A''\<rparr>,
      \<lparr>grade_record.student_id = Some ''S1'', course_code = Some ''C2'', grade = Some ''b''\<rparr>]"
  define hs where "hs =
     \<lparr>grade_record.student_id = Some ''S1'', course_code = Some ''C0'', grade = Some ''D''\<rparr>
      # replicate 7 \<lparr>grade_record.student_id = Some ''S1'', course_code = Some ''C1'', grade = Some ''F''\<rparr>"
  have c: "spec_counted (Some ''S1'') gs \<noteq> []" unfolding gs_def by code_simp
  have l: "length gs < 2 ^ 32" by (simp add: gs_def)
  have q: "spec_quotient (Some ''S1'') gs = 7 / 2" unfolding gs_def by code_simp
  have r: "unaryPlus (nat (spec_roundHalfAway (100 * (7 / 2)))) = 7 / 2" by code_simp
  have 1: "calcGPAForStudent (Some ''S1'') gs = Some (Num (7 / 2))"
    using calcGPA_rounded_quotient [OF c l] unfolding q r by blast
  have c': "spec_counted (Some ''S1'') hs \<noteq> []" unfolding hs_def by code_simp
  have l': "length hs < 2 ^ 32" by (simp add: hs_def)
  have q': "spec_quotient (Some ''S1'') hs = 1 / 8" unfolding hs_def by code_simp
  have m': "spec_mean (Some ''S1'') hs = 1 / 8" unfolding hs_def by code_simp
  have r': "nat (spec_roundHalfAway (100 * (1 / 8))) = 13" by code_simp
  have 2: "calcGPAForStudent (Some ''S1'') hs = Some (Num (unaryPlus 13))"
    using calcGPA_rounded_quotient [OF c' l'] unfolding q' r' by blast
  from 1 2 m' show ?thesis unfolding gs_def hs_def by (intro conjI)
qed

text \<open>
  C9. A result of \<open>calcGPAForStudent\<close> other than \<^verbatim>\<open>null\<close> is a number between 0 and 4.
\<close>

theorem calcGPA_range:
  assumes "calcGPAForStudent sid gs = Some v"
  shows "\<exists>x. v = Num x \<and> 0 \<le> x \<and> x \<le> 4"
proof -
  define rs where "rs = spec_counted sid gs"
  from assms have ne: "rs \<noteq> []"
    and v: "v = Num (unaryPlus (toFixed2 (binary64_div (sum_list (map spec_points rs)) (length rs))))"
    unfolding rs_def by (auto simp: calcGPAForStudent_eq split: if_splits)
  from ne have "0 < length rs" by simp
  from gpa_value_bounds [OF this sum_points_le] v show ?thesis by blast
qed

theorem calcGPA_range_witness:
  "\<exists>x. calcGPAForStudent (Some ''S1'')
     [\<lparr>grade_record.student_id = Some ''S1'', course_code = Some ''C1'', grade = Some ''A''\<rparr>,
      \<lparr>grade_record.student_id = Some ''S1'', course_code = Some ''C2'', grade = Some ''c''\<rparr>,
      \<lparr>grade_record.student_id = Some ''S1'', course_code = Some ''C3'', grade = Some ''C''\<rparr>]
     = Some (Num x) \<and> 0 \<le> x \<and> x \<le> 4"
proof -
  define gs where "gs =
     [\<lparr>grade_record.student_id = Some ''S1'', course_code = Some ''C1'', grade = Some ''A''\<rparr>,
      \<lparr>grade_record.student_id = Some ''S1'', course_code = Some ''C2'', grade = Some ''c''\<rparr>,
      \<lparr>grade_record.student_id = Some ''S1'', course_code = Some ''C3'', grade = Some ''C''\<rparr>]"
  have "calcGPAForStudent (Some ''S1'') gs = Some (Num (unaryPlus 267))"
    unfolding gs_def by code_simp
  from calcGPA_range [OF this] this show ?thesis unfolding gs_def by blast
qed

section \<open>Course attendance: the two loops and the window\<close>

lemma enrollLoop_eq: "enrollLoop c gs ids = ids \<union> spec_enrolled c gs"
  by (induction gs arbitrary: ids) (auto simp: spec_enrolled_def)

lemma tally_eq:
  "tally js ids att st =
     \<lparr>Present = Present st + length (filter (\<lambda>a. attendance_record.student_id a \<in> ids \<and> spec_status js a = ''present'') att),
      Absent = Absent st + length (filter (\<lambda>a. attendance_record.student_id a \<in> ids \<and> spec_status js a = ''absent'') att),
      Other = Other st + length (filter (\<lambda>a. attendance_record.student_id a \<in> ids
                 \<and> spec_status js a \<noteq> ''present'' \<and> spec_status js a \<noteq> ''absent'') att)\<rparr>"
proof (induction att arbitrary: st)
  case Nil
  then show ?case by simp
next
  case (Cons a att)
  show ?case
  proof (cases "attendance_record.student_id a \<in> ids")
    case False
    then show ?thesis using Cons.IH [of st] by simp
  next
    case True
    consider (p) "spec_status js a = ''present''"
      | (a) "spec_status js a \<noteq> ''present''" "spec_status js a = ''absent''"
      | (o) "spec_status js a \<noteq> ''present''" "spec_status js a \<noteq> ''absent''" by blast
    then show ?thesis
    proof cases
      case p
      then have "tally js ids (a # att) st = tally js ids att (st\<lparr>Present := Present st + 1\<rparr>)"
        using True by (simp add: spec_status_def Let_def)
      then show ?thesis using True p by (simp add: Cons.IH)
    next
      case a
      then have "tally js ids (a # att) st = tally js ids att (st\<lparr>Absent := Absent st + 1\<rparr>)"
        using True by (simp add: spec_status_def Let_def)
      then show ?thesis using True a by (simp add: Cons.IH)
    next
      case o
      then have "tally js ids (a # att) st = tally js ids att (st\<lparr>Other := Other st + 1\<rparr>)"
        using True by (simp add: spec_status_def Let_def)
      then show ?thesis using True o by (simp add: Cons.IH)
    qed
  qed
qed

lemma length_filter_partition3:
  "length (filter (\<lambda>a. P a \<and> f a = x) xs) + length (filter (\<lambda>a. P a \<and> f a = y) xs)
     + length (filter (\<lambda>a. P a \<and> f a \<noteq> x \<and> f a \<noteq> y) xs) = length (filter P xs)"
  if "x \<noteq> y"
  using that by (induction xs) auto

lemma snd_handle: "snd (handle ev sw) = snd sw"
  by (cases ev; cases sw) simp_all

lemma snd_foldl_handle: "snd (foldl (\<lambda>sw ev. handle ev sw) sw evs) = snd sw"
  by (induction evs arbitrary: sw) (simp_all add: snd_handle)

lemma window_unchanged: "snd (run evs) = exposeGradesGlobally"
  by (simp add: run_def snd_foldl_handle)

lemma ascii_status_examples:
  "toLowerCase ascii (trim ascii '' present '') = ''present''"
  "toLowerCase ascii (trim ascii ''ABSENT'') = ''absent''"
  "toLowerCase ascii (trim ascii ''Present'') = ''present''"
  "toLowerCase ascii (trim ascii ''tardy'') = ''tardy''"
  "toLowerCase ascii (trim ascii []) = []"
  by code_simp+

subsection \<open>The claims about the course attendance\<close>

text \<open>
  C6. Whatever the set of enrolled identifiers and the attendance records, the tally
  counts exactly the records whose \<open>student_id\<close> is in the set: Present those whose
  status, trimmed and lower-cased, is \<^verbatim>\<open>present\<close>, Absent those where it is
  \<^verbatim>\<open>absent\<close>, Other all the rest of them. Records of other students change nothing, the
  empty set gives three zeros, and \<open>total\<close> is the sum of the three counts, the number of
  records of enrolled students.
\<close>

theorem tally_counts:
  "Present (tally js ids att \<lparr>Present = 0, Absent = 0, Other = 0\<rparr>)
     = length (filter (\<lambda>a. attendance_record.student_id a \<in> ids
                          \<and> toLowerCase js (trim js (orEmpty (attendance_status a))) = ''present'') att)
   \<and> Absent (tally js ids att \<lparr>Present = 0, Absent = 0, Other = 0\<rparr>)
     = length (filter (\<lambda>a. attendance_record.student_id a \<in> ids
                          \<and> toLowerCase js (trim js (orEmpty (attendance_status a))) = ''absent'') att)
   \<and> Other (tally js ids att \<lparr>Present = 0, Absent = 0, Other = 0\<rparr>)
     = length (filter (\<lambda>a. attendance_record.student_id a \<in> ids
                          \<and> toLowerCase js (trim js (orEmpty (attendance_status a))) \<noteq> ''present''
                          \<and> toLowerCase js (trim js (orEmpty (attendance_status a))) \<noteq> ''absent'') att)
   \<and> tally js ids att \<lparr>Present = 0, Absent = 0, Other = 0\<rparr>
     = tally js ids (filter (\<lambda>a. attendance_record.student_id a \<in> ids) att)
         \<lparr>Present = 0, Absent = 0, Other = 0\<rparr>
   \<and> tally js {} att \<lparr>Present = 0, Absent = 0, Other = 0\<rparr> = \<lparr>Present = 0, Absent = 0, Other = 0\<rparr>
   \<and> stats (CourseAttendance js w c att studs)
     = tally js (enrolledStudentIds (CourseAttendance js w c att studs)) att
         \<lparr>Present = 0, Absent = 0, Other = 0\<rparr>
   \<and> total (CourseAttendance js w c att studs)
     = Present (stats (CourseAttendance js w c att studs))
       + Absent (stats (CourseAttendance js w c att studs))
       + Other (stats (CourseAttendance js w c att studs))
   \<and> total (CourseAttendance js w c att studs)
     = length (filter (\<lambda>a. attendance_record.student_id a
                             \<in> enrolledStudentIds (CourseAttendance js w c att studs)) att)"
proof -
  have f: "filter (\<lambda>a. attendance_record.student_id a \<in> ids \<and> Q a)
             (filter (\<lambda>a. attendance_record.student_id a \<in> ids) att)
           = filter (\<lambda>a. attendance_record.student_id a \<in> ids \<and> Q a) att" for Q
    by (simp add: conj_commute conj_left_commute cong: conj_cong)
  have 4: "tally js ids att \<lparr>Present = 0, Absent = 0, Other = 0\<rparr>
     = tally js ids (filter (\<lambda>a. attendance_record.student_id a \<in> ids) att)
         \<lparr>Present = 0, Absent = 0, Other = 0\<rparr>"
    unfolding tally_eq f ..
  have 8: "total (CourseAttendance js w c att studs)
     = length (filter (\<lambda>a. attendance_record.student_id a
                             \<in> enrolledStudentIds (CourseAttendance js w c att studs)) att)"
    using length_filter_partition3 [of "''present''" "''absent''"
        "\<lambda>a. attendance_record.student_id a \<in> enrollLoop c (get_GRADES_FOR_APP w) {}"
        "spec_status js" att]
    by (simp add: CourseAttendance_def Let_def tally_eq)
  show ?thesis
    using 4 8 by (simp add: tally_eq spec_status_def CourseAttendance_def Let_def)
qed

theorem tally_counts_witness:
  "tally ascii {Some ''S1'', Some ''S2''}
     [\<lparr>attendance_record.student_id = Some ''S1'', date = Some ''2024-01-01'', attendance_status = Some '' present ''\<rparr>,
      \<lparr>attendance_record.student_id = Some ''S2'', date = Some ''2024-01-01'', attendance_status = Some ''ABSENT''\<rparr>,
      \<lparr>attendance_record.student_id = Some ''S3'', date = Some ''2024-01-01'', attendance_status = Some ''Present''\<rparr>,
      \<lparr>attendance_record.student_id = Some ''S1'', date = Some ''2024-01-02'', attendance_status = Some ''tardy''\<rparr>,
      \<lparr>attendance_record.student_id = Some ''S2'', date = Some ''2024-01-02'', attendance_status = None\<rparr>]
     \<lparr>Present = 0, Absent = 0, Other = 0\<rparr>
   = \<lparr>Present = 1, Absent = 1, Other = 2\<rparr>"
proof -
  define att where "att =
     [\<lparr>attendance_record.student_id = Some ''S1'', date = Some ''2024-01-01'', attendance_status = Some '' present ''\<rparr>,
      \<lparr>attendance_record.student_id = Some ''S2'', date = Some ''2024-01-01'', attendance_status = Some ''ABSENT''\<rparr>,
      \<lparr>attendance_record.student_id = Some ''S3'', date = Some ''2024-01-01'', attendance_status = Some ''Present''\<rparr>,
      \<lparr>attendance_record.student_id = Some ''S1'', date = Some ''2024-01-02'', attendance_status = Some ''tardy''\<rparr>,
      \<lparr>attendance_record.student_id = Some ''S2'', date = Some ''2024-01-02'', attendance_status = None\<rparr>]"
  define ids where "ids = {Some ''S1'', Some ''S2''}"
  have p: "length (filter (\<lambda>a. attendance_record.student_id a \<in> ids
                          \<and> toLowerCase ascii (trim ascii (orEmpty (attendance_status a))) = ''present'') att) = 1"
    unfolding att_def ids_def by (simp add: orEmpty_def ascii_status_examples)
  have a: "length (filter (\<lambda>a. attendance_record.student_id a \<in> ids
                          \<and> toLowerCase ascii (trim ascii (orEmpty (attendance_status a))) = ''absent'') att) = 1"
    unfolding att_def ids_def by (simp add: orEmpty_def ascii_status_examples)
  have o: "length (filter (\<lambda>a. attendance_record.student_id a \<in> ids
                          \<and> toLowerCase ascii (trim ascii (orEmpty (attendance_status a))) \<noteq> ''present''
                          \<and> toLowerCase ascii (trim ascii (orEmpty (attendance_status a))) \<noteq> ''absent'') att) = 2"
    unfolding att_def ids_def by (simp add: orEmpty_def ascii_status_examples)
  from tally_counts [of ascii ids att "\<lparr>internal_grades_for_app = None\<rparr>" "''C1''" "[]"]
  have "Present (tally ascii ids att \<lparr>Present = 0, Absent = 0, Other = 0\<rparr>) = 1"
    and "Absent (tally ascii ids att \<lparr>Present = 0, Absent = 0, Other = 0\<rparr>) = 1"
    and "Other (tally ascii ids att \<lparr>Present = 0, Absent = 0, Other = 0\<rparr>) = 2"
    unfolding p a o by blast+
  then have "tally ascii ids att \<lparr>Present = 0, Absent = 0, Other = 0\<rparr> = \<lparr>Present = 1, Absent = 1, Other = 2\<rparr>"
    by (intro stats.equality) simp_all
  then show ?thesis unfolding att_def ids_def .
qed

text \<open>
  C1, as the specification states it, fails: \<^verbatim>\<open>CourseAttendance\<close> has no grade records
  among its arguments. With a grade record of S1 for C1 loaded into the state of \<open>App\<close>
  and C1 selected, the enrolled set the panel computes is empty.
\<close>

theorem enrolled_from_argument_counterexample:
  "grades (fst (run [Loaded [\<lparr>student.student_id = Some ''S1'', name = Some ''Ann'', major = Some ''CS'', year = Some ''1''\<rparr>]
                       [\<lparr>course.course_code = Some ''C1'', name = Some ''Logic'', instructor = Some ''Bo''\<rparr>]
                       [\<lparr>grade_record.student_id = Some ''S1'', course_code = Some ''C1'', grade = Some ''A''\<rparr>]
                       [],
                SetSelectedCourse ''C1'']))
     = [\<lparr>grade_record.student_id = Some ''S1'', course_code = Some ''C1'', grade = Some ''A''\<rparr>]
   \<and> spec_enrolled ''C1''
       [\<lparr>grade_record.student_id = Some ''S1'', course_code = Some ''C1'', grade = Some ''A''\<rparr>]
     = {Some ''S1''}
   \<and> map_option enrolledStudentIds
       (courseAttendancePanel ascii
          (run [Loaded [\<lparr>student.student_id = Some ''S1'', name = Some ''Ann'', major = Some ''CS'', year = Some ''1''\<rparr>]
                       [\<lparr>course.course_code = Some ''C1'', name = Some ''Logic'', instructor = Some ''Bo''\<rparr>]
                       [\<lparr>grade_record.student_id = Some ''S1'', course_code = Some ''C1'', grade = Some ''A''\<rparr>]
                       [],
                SetSelectedCourse ''C1'']))
     = Some {}"
  by (simp add: run_def App_def exposeGradesGlobally_def courseAttendancePanel_def
      CourseAttendance_def get_GRADES_FOR_APP_def spec_enrolled_def)

text \<open>
  C1, amended. The enrolled set is exactly the set of the \<open>student_id\<close> values of the
  entries with the given \<open>course_code\<close> in the array that the getter of the window global
  \<^verbatim>\<open>__GRADES_FOR_APP\<close> returns: the grade records come from this ambient global, not from
  an argument.
\<close>

theorem enrolled_from_window:
  "enrolledStudentIds (CourseAttendance js w courseCode att studs)
     = spec_enrolled courseCode (get_GRADES_FOR_APP w)
   \<and> spec_enrolled courseCode gs
     = {sid. \<exists>g\<in>set gs. grade_record.course_code g = Some courseCode
                          \<and> grade_record.student_id g = sid}"
  by (auto simp: CourseAttendance_def Let_def enrollLoop_eq spec_enrolled_def)

theorem enrolled_from_window_witness:
  "enrolledStudentIds
     (CourseAttendance ascii
        (set_GRADES_FOR_APP
           [\<lparr>grade_record.student_id = Some ''S1'', course_code = Some ''C1'', grade = Some ''A''\<rparr>,
            \<lparr>grade_record.student_id = Some ''S2'', course_code = Some ''C2'', grade = Some ''B''\<rparr>,
            \<lparr>grade_record.student_id = None, course_code = Some ''C1'', grade = Some ''B''\<rparr>]
           exposeGradesGlobally)
        ''C1'' [] [])
   = {Some ''S1'', None}"
proof -
  have "spec_enrolled ''C1''
          (get_GRADES_FOR_APP
            (set_GRADES_FOR_APP
           [\<lparr>grade_record.student_id = Some ''S1'', course_code = Some ''C1'', grade = Some ''A''\<rparr>,
            \<lparr>grade_record.student_id = Some ''S2'', course_code = Some ''C2'', grade = Some ''B''\<rparr>,
            \<lparr>grade_record.student_id = None, course_code = Some ''C1'', grade = Some ''B''\<rparr>]
           exposeGradesGlobally)) = {Some ''S1'', None}"
    by (simp add: spec_enrolled_def get_GRADES_FOR_APP_def set_GRADES_FOR_APP_def
        exposeGradesGlobally_def)
  with enrolled_from_window [of ascii _ "''C1''" "[]" "[]"] show ?thesis by simp
qed




text \<open>
  C8. The getter of \<^verbatim>\<open>window.__GRADES_FOR_APP\<close> answers with the empty array while the
  global is unset, and no event of the application sets it: after any sequence of
  events the window is the one the module left behind, and for every \<open>courseCode\<close>,
  \<open>attendance\<close> and \<open>students\<close> the enrolled set is empty and Present, Absent, Other and
  \<open>total\<close> are 0.
\<close>

theorem CourseAttendance_always_empty:
  "snd (run evs) = exposeGradesGlobally
   \<and> get_GRADES_FOR_APP (snd (run evs)) = []
   \<and> enrolledStudentIds (CourseAttendance js (snd (run evs)) courseCode att studs) = {}
   \<and> enrolled (CourseAttendance js (snd (run evs)) courseCode att studs) = []
   \<and> stats (CourseAttendance js (snd (run evs)) courseCode att studs)
       = \<lparr>Present = 0, Absent = 0, Other = 0\<rparr>
   \<and> total (CourseAttendance js (snd (run evs)) courseCode att studs) = 0
   \<and> (courseAttendancePanel js (run evs) = None
      \<or> courseAttendancePanel js (run evs)
          = Some \<lparr>enrolledStudentIds = {}, enrolled = [],
                  stats = \<lparr>Present = 0, Absent = 0, Other = 0\<rparr>, total = 0, sample = []\<rparr>)"
proof -
  have c: "CourseAttendance js exposeGradesGlobally c a s
        = \<lparr>enrolledStudentIds = {}, enrolled = [],
            stats = \<lparr>Present = 0, Absent = 0, Other = 0\<rparr>, total = 0, sample = []\<rparr>" for c a s
    by (simp add: exposeGradesGlobally_def get_GRADES_FOR_APP_def CourseAttendance_def tally_eq)
  obtain st where r: "run evs = (st, exposeGradesGlobally)"
    using window_unchanged [of evs] by (cases "run evs") simp
  have "courseAttendancePanel js (run evs) = None
      \<or> courseAttendancePanel js (run evs)
          = Some \<lparr>enrolledStudentIds = {}, enrolled = [],
                  stats = \<lparr>Present = 0, Absent = 0, Other = 0\<rparr>, total = 0, sample = []\<rparr>"
    unfolding r by (simp add: courseAttendancePanel_def c split: option.split)
  moreover have "get_GRADES_FOR_APP exposeGradesGlobally = []"
    by (simp add: exposeGradesGlobally_def get_GRADES_FOR_APP_def)
  ultimately show ?thesis by (simp add: window_unchanged c)
qed

theorem CourseAttendance_always_empty_witness:
  "courseAttendancePanel ascii
     (run [Loaded [\<lparr>student.student_id = Some ''S1'', name = Some ''Ann'', major = Some ''CS'', year = Some ''1''\<rparr>]
                  [\<lparr>course.course_code = Some ''C1'', name = Some ''Logic'', instructor = Some ''Bo''\<rparr>]
                  [\<lparr>grade_record.student_id = Some ''S1'', course_code = Some ''C1'', grade = Some ''A''\<rparr>]
                  [\<lparr>attendance_record.student_id = Some ''S1'', date = Some ''2024-01-01'', attendance_status = Some ''Present''\<rparr>],
           SetSelectedCourse ''C1''])
   = Some \<lparr>enrolledStudentIds = {}, enrolled = [],
           stats = \<lparr>Present = 0, Absent = 0, Other = 0\<rparr>, total = 0, sample = []\<rparr>"
proof -
  have "courseAttendancePanel ascii
     (run [Loaded [\<lparr>student.student_id = Some ''S1'', name = Some ''Ann'', major = Some ''CS'', year = Some ''1''\<rparr>]
                  [\<lparr>course.course_code = Some ''C1'', name = Some ''Logic'', instructor = Some ''Bo''\<rparr>]
                  [\<lparr>grade_record.student_id = Some ''S1'', course_code = Some ''C1'', grade = Some ''A''\<rparr>]
                  [\<lparr>attendance_record.student_id = Some ''S1'', date = Some ''2024-01-01'', attendance_status = Some ''Present''\<rparr>],
           SetSelectedCourse ''C1'']) \<noteq> None"
    by (simp add: run_def App_def courseAttendancePanel_def)
  with CourseAttendance_always_empty [of "[Loaded [\<lparr>student.student_id = Some ''S1'', name = Some ''Ann'', major = Some ''CS'', year = Some ''1''\<rparr>]
                  [\<lparr>course.course_code = Some ''C1'', name = Some ''Logic'', instructor = Some ''Bo''\<rparr>]
                  [\<lparr>grade_record.student_id = Some ''S1'', course_code = Some ''C1'', grade = Some ''A''\<rparr>]
                  [\<lparr>attendance_record.student_id = Some ''S1'', date = Some ''2024-01-01'', attendance_status = Some ''Present''\<rparr>],
           SetSelectedCourse ''C1'']" ascii "''C1''" "[]" "[]"]
  show ?thesis by blast
qed

section \<open>Search filter: the substring test and the error\<close>





lemma filterStudents_total:
  assumes "\<forall>s\<in>set studs. student.student_id s \<noteq> None"
  shows "filterStudents js q studs
         = Inr (filter (\<lambda>s. includesStr (toLowerCase js (orEmpty (student.student_id s))) q
                          \<or> includesStr (toLowerCase js (orEmpty (student.name s))) q) studs)"
  using assms
proof (induction studs)
  case Nil
  then show ?case by simp
next
  case (Cons s studs)
  from Cons.prems obtain sid where sid: "student.student_id s = Some sid" by auto
  from Cons.prems have "\<forall>s\<in>set studs. student.student_id s \<noteq> None" by simp
  from Cons.IH [OF this] sid show ?case by (simp add: matchesQuery_def orEmpty_def)
qed

lemma filterStudents_error:
  assumes "\<exists>s\<in>set studs. student.student_id s = None"
  shows "filterStudents js q studs = Inl TypeError"
  using assms
proof (induction studs)
  case Nil
  then show ?case by simp
next
  case (Cons s studs)
  show ?case
  proof (cases "student.student_id s")
    case None
    then show ?thesis by (simp add: matchesQuery_def)
  next
    case (Some sid)
    with Cons.prems have "\<exists>s\<in>set studs. student.student_id s = None" by auto
    from Cons.IH [OF this] Some show ?thesis by (simp add: matchesQuery_def)
  qed
qed

subsection \<open>The claims about the search filter\<close>




text \<open>
  C10. \<open>filteredStudents\<close> throws exactly when the query is not blank and some student
  has no \<open>student_id\<close>; a missing \<open>name\<close> never makes it throw. When every student has a
  \<open>student_id\<close> it returns a list.
\<close>

theorem filteredStudents_total_iff:
  "(filteredStudents js studs query = Inl TypeError
     \<longleftrightarrow> toLowerCase js (trim js query) \<noteq> [] \<and> (\<exists>s\<in>set studs. student.student_id s = None))
   \<and> ((\<forall>s\<in>set studs. student.student_id s \<noteq> None) \<longrightarrow>
        (\<exists>result. filteredStudents js studs query = Inr result))"
proof (cases "\<exists>s\<in>set studs. student.student_id s = None")
  case True
  then show ?thesis
    unfolding filteredStudents_def Let_def by (simp add: filterStudents_error)
next
  case False
  then have "\<forall>s\<in>set studs. student.student_id s \<noteq> None" by simp
  from filterStudents_total [OF this] False show ?thesis
    unfolding filteredStudents_def Let_def by simp
qed

theorem filteredStudents_total_iff_witness:
  "filteredStudents ascii
     [\<lparr>student.student_id = Some ''S1'', name = None, major = Some ''CS'', year = Some ''1''\<rparr>,
      \<lparr>student.student_id = None, name = Some ''Ann'', major = Some ''CS'', year = Some ''1''\<rparr>] ''s''
   = Inl TypeError
   \<and> filteredStudents ascii
     [\<lparr>student.student_id = Some ''S1'', name = None, major = Some ''CS'', year = Some ''1''\<rparr>] ''s''
   \<noteq> Inl TypeError
   \<and> filteredStudents ascii
     [\<lparr>student.student_id = None, name = Some ''Ann'', major = Some ''CS'', year = Some ''1''\<rparr>] '' ''
   \<noteq> Inl TypeError"
proof -
  have w: "toLowerCase ascii (trim ascii ''s'') \<noteq> []" by code_simp
  have b: "toLowerCase ascii (trim ascii '' '') = []" by code_simp
  have 1: "filteredStudents ascii
     [\<lparr>student.student_id = Some ''S1'', name = None, major = Some ''CS'', year = Some ''1''\<rparr>,
      \<lparr>student.student_id = None, name = Some ''Ann'', major = Some ''CS'', year = Some ''1''\<rparr>] ''s''
   = Inl TypeError"
    using w filteredStudents_total_iff [of ascii
      "[\<lparr>student.student_id = Some ''S1'', name = None, major = Some ''CS'', year = Some ''1''\<rparr>,
      \<lparr>student.student_id = None, name = Some ''Ann'', major = Some ''CS'', year = Some ''1''\<rparr>]" "''s''"]
    by simp
  have 2: "filteredStudents ascii
     [\<lparr>student.student_id = Some ''S1'', name = None, major = Some ''CS'', year = Some ''1''\<rparr>] ''s''
   \<noteq> Inl TypeError"
    using filteredStudents_total_iff [of ascii
      "[\<lparr>student.student_id = Some ''S1'', name = None, major = Some ''CS'', year = Some ''1''\<rparr>]" "''s''"]
    by simp
  have 3: "filteredStudents ascii
     [\<lparr>student.student_id = None, name = Some ''Ann'', major = Some ''CS'', year = Some ''1''\<rparr>] '' ''
   \<noteq> Inl TypeError"
    using b filteredStudents_total_iff [of ascii
      "[\<lparr>student.student_id = None, name = Some ''Ann'', major = Some ''CS'', year = Some ''1''\<rparr>]" "'' ''"]
    by simp
  from 1 2 3 show ?thesis by (intro conjI)
qed

section \<open>Enrollment aggregator: the loop and the order of the keys\<close>

lemma first_seen_snoc:
  "spec_first_seen (xs @ [x]) = (if x \<in> set xs then spec_first_seen xs else spec_first_seen xs @ [x])"
  by (simp add: spec_first_seen_def)

lemma set_first_seen: "set (spec_first_seen xs) = set xs"
  by (simp add: spec_first_seen_def)

lemma distinct_first_seen: "distinct (spec_first_seen xs)"
  by (simp add: spec_first_seen_def)

lemma enrollmentLoop_snoc:
  "enrollmentLoop (xs @ [s]) obj =
     setProp (enrollmentLoop xs obj) (majorOf s)
       (orZeroPlusOne (getProp (enrollmentLoop xs obj) (majorOf s)))"
  by (induction xs arbitrary: obj) (simp_all add: Let_def)

lemma assignOwn_present:
  "distinct ks \<Longrightarrow> m \<in> set ks \<Longrightarrow>
     assignOwn (map (\<lambda>k. (k, f k)) ks) m v = map (\<lambda>k. (k, if k = m then v else f k)) ks"
  by (induction ks) auto

lemma assignOwn_absent:
  "m \<notin> set ks \<Longrightarrow> assignOwn (map (\<lambda>k. (k, f k)) ks) m v = map (\<lambda>k. (k, f k)) ks @ [(m, v)]"
  by (induction ks) auto

lemma map_of_keyed:
  "map_of (map (\<lambda>k. (k, f k)) ks) m = (if m \<in> set ks then Some (f m) else None)"
  by (induction ks) auto

lemma proto_in_keys: "''__proto__'' \<in> set objectPrototypeKeys"
  by (simp add: objectPrototypeKeys_def)

lemma enrollmentLoop_counts:
  assumes "\<forall>s\<in>set studs. majorOf s \<notin> set objectPrototypeKeys"
  shows "enrollmentLoop studs []
         = map (\<lambda>m. (m, JNum (spec_group_size studs m))) (spec_first_seen (map majorOf studs))"
  using assms
proof (induction studs rule: rev_induct)
  case Nil
  then show ?case by (simp add: spec_first_seen_def)
next
  case (snoc s studs)
  define m where "m = majorOf s"
  define ks where "ks = spec_first_seen (map majorOf studs)"
  define f where "f = (\<lambda>k. JNum (spec_group_size studs k))"
  from snoc.prems have np: "m \<notin> set objectPrototypeKeys" by (simp add: m_def)
  then have m_proto: "m \<noteq> ''__proto__''" using proto_in_keys by blast
  from snoc.prems have "\<forall>s\<in>set studs. majorOf s \<notin> set objectPrototypeKeys" by simp
  from snoc.IH [OF this] have IH: "enrollmentLoop studs [] = map (\<lambda>k. (k, f k)) ks"
    by (simp add: ks_def f_def)
  have ks: "set ks = majorOf ` set studs" "distinct ks"
    by (simp_all add: ks_def set_first_seen distinct_first_seen)
  have zero: "m \<notin> set ks \<Longrightarrow> spec_group_size studs m = 0"
    unfolding ks spec_group_size_def by (auto simp: filter_empty_conv)
  have get: "orZeroPlusOne (getProp (map (\<lambda>k. (k, f k)) ks) m) = JNum (spec_group_size studs m + 1)"
    using np m_proto zero by (simp add: getProp_def map_of_keyed f_def)
  have size: "spec_group_size (studs @ [s]) k = (if k = m then spec_group_size studs k + 1 else spec_group_size studs k)" for k
    by (simp add: spec_group_size_def m_def)
  have loop: "enrollmentLoop (studs @ [s]) []
              = assignOwn (map (\<lambda>k. (k, f k)) ks) m (JNum (spec_group_size studs m + 1))"
    unfolding enrollmentLoop_snoc IH m_def [symmetric] get
    using m_proto by (simp add: setProp_def)
  show ?case
  proof (cases "m \<in> set ks")
    case True
    then have "m \<in> set (map majorOf studs)" by (simp add: ks_def set_first_seen)
    then have fs: "spec_first_seen (map majorOf (studs @ [s])) = ks"
      by (simp add: first_seen_snoc ks_def m_def)
    show ?thesis
      unfolding loop fs assignOwn_present [OF ks(2) True]
      by (simp add: size f_def)
  next
    case False
    then have "m \<notin> set (map majorOf studs)" by (simp add: ks_def set_first_seen)
    then have fs: "spec_first_seen (map majorOf (studs @ [s])) = ks @ [m]"
      by (simp add: first_seen_snoc ks_def m_def)
    show ?thesis
      unfolding loop fs assignOwn_absent [OF False]
      using False by (auto simp: size f_def)
  qed
qed

lemma insort_key_map:
  "insort_key f (h x) (map h xs) = map h (insort_key (\<lambda>y. f (h y)) x xs)"
  by (induction xs) simp_all

lemma sort_key_map: "sort_key f (map h xs) = map h (sort_key (\<lambda>y. f (h y)) xs)"
  by (induction xs) (simp_all add: insort_key_map)

lemma entries_keyed:
  "entries (map (\<lambda>k. (k, f k)) ks)
   = map (\<lambda>k. (k, f k))
       (sort_key decimalValue (filter isArrayIndex ks) @ filter (\<lambda>k. \<not> isArrayIndex k) ks)"
  by (simp add: entries_def filter_map comp_def sort_key_map)

subsection \<open>The claim about the enrollment by major\<close>

text \<open>
  C5, as the specification states it, fails. A major that is an array index comes first
  in \<^verbatim>\<open>Object.entries\<close>: after CS and 101 the groups are listed 101, CS. A major that
  names a member of \<^verbatim>\<open>Object.prototype\<close> is not counted: \<^verbatim>\<open>__proto__\<close> gets no
  group at all, and the count of \<^verbatim>\<open>constructor\<close> is a text.
\<close>

theorem calculateEnrollmentByMajor_counterexample:
  "calculateEnrollmentByMajor
     [\<lparr>student.student_id = Some ''S1'', name = Some ''Ann'', major = Some ''CS'', year = Some ''1''\<rparr>,
      \<lparr>student.student_id = Some ''S2'', name = Some ''Bob'', major = Some ''101'', year = Some ''2''\<rparr>]
   = [\<lparr>major_count.major = ''101'', count = JNum 1\<rparr>, \<lparr>major_count.major = ''CS'', count = JNum 1\<rparr>]
   \<and> spec_first_seen (map majorOf
     [\<lparr>student.student_id = Some ''S1'', name = Some ''Ann'', major = Some ''CS'', year = Some ''1''\<rparr>,
      \<lparr>student.student_id = Some ''S2'', name = Some ''Bob'', major = Some ''101'', year = Some ''2''\<rparr>])
   = [''CS'', ''101'']
   \<and> calculateEnrollmentByMajor
     [\<lparr>student.student_id = Some ''S3'', name = Some ''Cy'', major = Some ''__proto__'', year = Some ''1''\<rparr>]
   = []
   \<and> calculateEnrollmentByMajor
     [\<lparr>student.student_id = Some ''S4'', name = Some ''Di'', major = Some ''constructor'', year = Some ''1''\<rparr>]
   = [\<lparr>major_count.major = ''constructor'', count = JStr ''function Object() { [native code] }1''\<rparr>]"
proof -
  have cs: "\<not> isArrayIndex ''CS''" by (simp add: isArrayIndex_def isDigit_def)
  have n: "isArrayIndex ''101''" by (simp add: isArrayIndex_def isDigit_def decimalValue_def)
  have loop: "enrollmentLoop
     [\<lparr>student.student_id = Some ''S1'', name = Some ''Ann'', major = Some ''CS'', year = Some ''1''\<rparr>,
      \<lparr>student.student_id = Some ''S2'', name = Some ''Bob'', major = Some ''101'', year = Some ''2''\<rparr>] []
     = [(''CS'', JNum 1), (''101'', JNum 1)]"
    by (simp add: majorOf_def getProp_def setProp_def objectPrototypeKeys_def)
  have 1: "calculateEnrollmentByMajor
     [\<lparr>student.student_id = Some ''S1'', name = Some ''Ann'', major = Some ''CS'', year = Some ''1''\<rparr>,
      \<lparr>student.student_id = Some ''S2'', name = Some ''Bob'', major = Some ''101'', year = Some ''2''\<rparr>]
   = [\<lparr>major_count.major = ''101'', count = JNum 1\<rparr>, \<lparr>major_count.major = ''CS'', count = JNum 1\<rparr>]"
    unfolding calculateEnrollmentByMajor_def loop by (simp add: entries_def cs n)
  have 2: "spec_first_seen (map majorOf
     [\<lparr>student.student_id = Some ''S1'', name = Some ''Ann'', major = Some ''CS'', year = Some ''1''\<rparr>,
      \<lparr>student.student_id = Some ''S2'', name = Some ''Bob'', major = Some ''101'', year = Some ''2''\<rparr>])
   = [''CS'', ''101'']"
    by (simp add: spec_first_seen_def majorOf_def)
  have 3: "calculateEnrollmentByMajor
     [\<lparr>student.student_id = Some ''S3'', name = Some ''Cy'', major = Some ''__proto__'', year = Some ''1''\<rparr>]
   = []"
    by (simp add: calculateEnrollmentByMajor_def majorOf_def setProp_def entries_def)
  have 4: "calculateEnrollmentByMajor
     [\<lparr>student.student_id = Some ''S4'', name = Some ''Di'', major = Some ''constructor'', year = Some ''1''\<rparr>]
   = [\<lparr>major_count.major = ''constructor'', count = JStr ''function Object() { [native code] }1''\<rparr>]"
    by (simp add: calculateEnrollmentByMajor_def majorOf_def setProp_def getProp_def
        objectPrototypeKeys_def inheritedText_def entries_def isArrayIndex_def isDigit_def)
  from 1 2 3 4 show ?thesis by (intro conjI)
qed

text \<open>
  C5, amended. When no major is the name of a member of \<^verbatim>\<open>Object.prototype\<close>, the
  students are grouped by major, a missing or empty major counting as
  \<^verbatim>\<open>Undeclared\<close>, and the count of a group is the number of its students. The groups
  whose major is an array index (the decimal text of an integer from 0 to \<open>2 ^ 32 - 2\<close>)
  come first, in ascending numeric order; the other groups follow in the order of the
  first occurrence of their major. When no major is an array index, this is the order of
  first occurrence throughout.
\<close>

theorem calculateEnrollmentByMajor_groups:
  assumes "\<forall>s\<in>set studs. majorOf s \<notin> set objectPrototypeKeys"
  shows "calculateEnrollmentByMajor studs
         = map (\<lambda>m. \<lparr>major_count.major = m, count = JNum (spec_group_size studs m)\<rparr>)
             (sort_key decimalValue (filter isArrayIndex (spec_first_seen (map majorOf studs)))
              @ filter (\<lambda>m. \<not> isArrayIndex m) (spec_first_seen (map majorOf studs)))
       \<and> ((\<forall>s\<in>set studs. \<not> isArrayIndex (majorOf s)) \<longrightarrow>
            calculateEnrollmentByMajor studs
            = map (\<lambda>m. \<lparr>major_count.major = m, count = JNum (spec_group_size studs m)\<rparr>)
                (spec_first_seen (map majorOf studs)))"
proof -
  define ks where "ks = spec_first_seen (map majorOf studs)"
  have 1: "calculateEnrollmentByMajor studs
         = map (\<lambda>m. \<lparr>major_count.major = m, count = JNum (spec_group_size studs m)\<rparr>)
             (sort_key decimalValue (filter isArrayIndex ks) @ filter (\<lambda>m. \<not> isArrayIndex m) ks)"
    unfolding calculateEnrollmentByMajor_def enrollmentLoop_counts [OF assms] entries_keyed ks_def
    by (simp add: comp_def)
  have 2: "sort_key decimalValue (filter isArrayIndex ks) @ filter (\<lambda>m. \<not> isArrayIndex m) ks = ks"
    if "\<forall>s\<in>set studs. \<not> isArrayIndex (majorOf s)"
  proof -
    from that have "\<forall>k\<in>set ks. \<not> isArrayIndex k" by (auto simp: ks_def set_first_seen)
    then have "filter isArrayIndex ks = []" "filter (\<lambda>m. \<not> isArrayIndex m) ks = ks"
      by (simp_all add: filter_empty_conv filter_id_conv)
    then show ?thesis by simp
  qed
  show ?thesis
  proof (intro conjI impI)
    show "calculateEnrollmentByMajor studs
         = map (\<lambda>m. \<lparr>major_count.major = m, count = JNum (spec_group_size studs m)\<rparr>)
             (sort_key decimalValue (filter isArrayIndex (spec_first_seen (map majorOf studs)))
              @ filter (\<lambda>m. \<not> isArrayIndex m) (spec_first_seen (map majorOf studs)))"
      using 1 unfolding ks_def .
  next
    assume "\<forall>s\<in>set studs. \<not> isArrayIndex (majorOf s)"
    from 2 [OF this] 1 show "calculateEnrollmentByMajor studs
            = map (\<lambda>m. \<lparr>major_count.major = m, count = JNum (spec_group_size studs m)\<rparr>)
                (spec_first_seen (map majorOf studs))"
      unfolding ks_def by (simp only:)
  qed
qed

theorem calculateEnrollmentByMajor_groups_witness:
  "calculateEnrollmentByMajor
     [\<lparr>student.student_id = Some ''S1'', name = Some ''Ann'', major = Some ''CS'', year = Some ''1''\<rparr>,
      \<lparr>student.student_id = Some ''S2'', name = Some ''Bob'', major = Some ''CS'', year = Some ''2''\<rparr>,
      \<lparr>student.student_id = Some ''S3'', name = Some ''Cy'', major = Some '''', year = Some ''1''\<rparr>]
   = [\<lparr>major_count.major = ''CS'', count = JNum 2\<rparr>,
      \<lparr>major_count.major = ''Undeclared'', count = JNum 1\<rparr>]"
proof -
  define studs where "studs =
     [\<lparr>student.student_id = Some ''S1'', name = Some ''Ann'', major = Some ''CS'', year = Some ''1''\<rparr>,
      \<lparr>student.student_id = Some ''S2'', name = Some ''Bob'', major = Some ''CS'', year = Some ''2''\<rparr>,
      \<lparr>student.student_id = Some ''S3'', name = Some ''Cy'', major = Some '''', year = Some ''1''\<rparr>]"
  have h: "\<forall>s\<in>set studs. majorOf s \<notin> set objectPrototypeKeys"
    by (simp add: studs_def majorOf_def objectPrototypeKeys_def)
  have i: "\<forall>s\<in>set studs. \<not> isArrayIndex (majorOf s)"
    by (simp add: studs_def majorOf_def isArrayIndex_def isDigit_def)
  have r: "map (\<lambda>m. \<lparr>major_count.major = m, count = JNum (spec_group_size studs m)\<rparr>)
                (spec_first_seen (map majorOf studs))
           = [\<lparr>major_count.major = ''CS'', count = JNum 2\<rparr>,
              \<lparr>major_count.major = ''Undeclared'', count = JNum 1\<rparr>]"
    by (simp add: studs_def majorOf_def spec_first_seen_def spec_group_size_def)
  have "calculateEnrollmentByMajor studs
        = map (\<lambda>m. \<lparr>major_count.major = m, count = JNum (spec_group_size studs m)\<rparr>)
                (spec_first_seen (map majorOf studs))"
    using calculateEnrollmentByMajor_groups [OF h] i by blast
  then show ?thesis unfolding r unfolding studs_def .
qed

end
